theory Spec2Isabelle
  imports Main
begin

section \<open>The menu widget of crawl-ref/source/menu.cc\<close>

text \<open>
  A shallow embedding of the menu core of \<^verbatim>\<open>menu.cc\<close>, in the local-tiles build
  (\<^verbatim>\<open>USE_TILE_LOCAL\<close> defined, \<^verbatim>\<open>USE_TILE_WEB\<close> and \<^verbatim>\<open>TOUCH_UI\<close> not defined): the only
  build in which \<^verbatim>\<open>UIMenu::do_layout\<close> and \<^verbatim>\<open>UIMenu::get_max_viewport_height\<close> exist.
  C++ \<^verbatim>\<open>int\<close> values are modelled as unbounded \<^typ>\<open>int\<close>; no claim below depends on
  wrap-around. A read outside a vector, a failed \<^verbatim>\<open>ASSERT\<close>, a division by zero and a
  loop that makes no progress are results of type \<open>error\<close>.
\<close>

subsection \<open>Errors\<close>

datatype error = AssertFailed | OutOfBounds | DivideByZero | NoReturn

definition bindE :: "error + 'a \<Rightarrow> ('a \<Rightarrow> error + 'b) \<Rightarrow> error + 'b" where
  "bindE r f = (case r of Inl e \<Rightarrow> Inl e | Inr v \<Rightarrow> f v)"

definition at :: "'a list \<Rightarrow> int \<Rightarrow> error + 'a" where
  \<comment> \<open>\<^verbatim>\<open>v[i]\<close> on a \<^verbatim>\<open>std::vector\<close>: defined inside the vector only.\<close>
  "at xs i = (if 0 \<le> i \<and> i < int (length xs) then Inr (xs ! nat i) else Inl OutOfBounds)"

fun for_each :: "('s \<Rightarrow> nat \<Rightarrow> error + 's) \<Rightarrow> 's \<Rightarrow> nat list \<Rightarrow> error + 's" where
  \<comment> \<open>A \<^verbatim>\<open>for\<close> loop over the indices \<open>is\<close> whose body \<open>f\<close> updates the state or fails.\<close>
  "for_each f s [] = Inr s"
| "for_each f s (i # is) = (case f s i of Inl e \<Rightarrow> Inl e | Inr s' \<Rightarrow> for_each f s' is)"

fun find_first :: "(nat \<Rightarrow> error + 'a option) \<Rightarrow> nat list \<Rightarrow> error + 'a option" where
  \<comment> \<open>A \<^verbatim>\<open>for\<close> loop over the indices \<open>is\<close> that returns at the first index where its body
      \<open>f\<close> yields a result.\<close>
  "find_first f [] = Inr None"
| "find_first f (i # is) =
     (case f i of Inl e \<Rightarrow> Inl e | Inr (Some r) \<Rightarrow> Inr (Some r) | Inr None \<Rightarrow> find_first f is)"

text \<open>\<open>holds_after r P\<close>: the call \<open>r\<close> returns and \<open>P\<close> holds of its result.\<close>

definition holds_after :: "error + 'a \<Rightarrow> ('a \<Rightarrow> bool) \<Rightarrow> bool" where
  "holds_after r P = (case r of Inl e \<Rightarrow> False | Inr x \<Rightarrow> P x)"

subsection \<open>Entry model\<close>

text \<open>
  Modelled from the spec: the enumeration \<^verbatim>\<open>MenuEntryLevel\<close> is declared in \<^verbatim>\<open>menu.h\<close>;
  the spec lists the levels as Item, Subtitle, Title and None, and \<^verbatim>\<open>menu.cc\<close> uses exactly
  these four names.
\<close>

datatype MenuEntryLevel = MEL_NONE | MEL_TITLE | MEL_SUBTITLE | MEL_ITEM

text \<open>
  The fields of \<^verbatim>\<open>MenuEntry\<close> that \<^verbatim>\<open>menu.cc\<close> reads and writes. \<open>on_select\<close> is the
  optional action: \<open>Some r\<close> is an installed action that reports \<open>r\<close> when it is invoked,
  \<open>None\<close> is the null function. \<open>tiles\<close> are opaque icon handles.
\<close>

record MenuEntry =
  entry_text :: string
  level :: MenuEntryLevel
  hotkeys :: "int list"
  quantity :: int
  selected_qty :: int
  colour :: int
  on_select :: "bool option"
  tiles :: "nat list"
  indent_no_hotkeys :: bool

definition selected :: "MenuEntry \<Rightarrow> bool" where
  \<comment> \<open>\<^verbatim>\<open>return selected_qty > 0 && (quantity || on_select);\<close>\<close>
  "selected e = (selected_qty e > 0 \<and> (quantity e \<noteq> 0 \<or> on_select e \<noteq> None))"

definition select :: "MenuEntry \<Rightarrow> int \<Rightarrow> MenuEntry" where
  \<comment> \<open>\<^verbatim>\<open>MenuEntry::select(int qty)\<close>; the last \<^verbatim>\<open>else if (quantity)\<close> has no \<^verbatim>\<open>else\<close>.\<close>
  "select e qty =
     (if on_select e \<noteq> None \<and> quantity e = 0 then e\<lparr>selected_qty := 1\<rparr>
      else if qty = -2 then e\<lparr>selected_qty := quantity e\<rparr>
      else if selected e then e\<lparr>selected_qty := 0\<rparr>
      else if quantity e \<noteq> 0 then e\<lparr>selected_qty := (if qty = -1 then quantity e else qty)\<rparr>
      else e)"

definition hotkeys_count :: "MenuEntry \<Rightarrow> nat" where
  "hotkeys_count e = length (hotkeys e)"

definition entry_is_hotkey :: "MenuEntry \<Rightarrow> int \<Rightarrow> bool" where
  \<comment> \<open>Modelled from the spec: \<^verbatim>\<open>MenuEntry::is_hotkey\<close> is defined in \<^verbatim>\<open>menu.h\<close>; the spec's
      words are "\<open>key\<close> is one of its hotkeys".\<close>
  "entry_is_hotkey e key = (key \<in> set (hotkeys e))"

subsection \<open>C++ integer arithmetic\<close>

definition c_div :: "int \<Rightarrow> int \<Rightarrow> int" where
  \<comment> \<open>\<^verbatim>\<open>a / b\<close> on \<^verbatim>\<open>int\<close>: the quotient is truncated towards zero.\<close>
  "c_div a b = sgn a * sgn b * (\<bar>a\<bar> div \<bar>b\<bar>)"

definition c_mod :: "int \<Rightarrow> int \<Rightarrow> int" where
  \<comment> \<open>\<^verbatim>\<open>a % b\<close> on \<^verbatim>\<open>int\<close>: the remainder has the sign of the dividend.\<close>
  "c_mod a b = a - b * c_div a b"

text \<open>
  \<^verbatim>\<open>menu.cc\<close> sets the scroll offset to \<^verbatim>\<open>INT_MAX\<close> to scroll to the end, so a sum that the
  scroll offset enters can leave the range of \<^verbatim>\<open>int\<close>. Signed overflow is undefined in C++;
  the build wraps modulo \<open>2^32\<close>, and \<open>int32\<close> is the \<^verbatim>\<open>int\<close> that such a sum of mathematical
  value \<open>x\<close> holds. Layout coordinates and heights are sums of font heights over the entries
  and are taken as they are.
\<close>

definition int32 :: "int \<Rightarrow> int" where
  "int32 x = (x + 2147483648) mod 4294967296 - 2147483648"

subsection \<open>Text measurement\<close>

text \<open>
  Modelled from the spec: the font (\<^verbatim>\<open>FontWrapper\<close>, \<^verbatim>\<open>m_font_entry\<close>) is the external
  "text-measurement capability: character height, string pixel width, and split to
  width/height". Its metrics are unsigned in the source (\<^verbatim>\<open>do_layout\<close> casts
  \<^verbatim>\<open>string_height\<close> to \<^verbatim>\<open>int\<close> and passes \<^verbatim>\<open>UINT_MAX\<close> as the height limit), hence
  \<^typ>\<open>nat\<close>. A \<^verbatim>\<open>formatted_string\<close> is modelled by its plain text; \<open>split s w\<close> is
  \<^verbatim>\<open>split(s, w, UINT_MAX)\<close>.
\<close>

record FontWrapper =
  char_height :: nat
  string_width :: "string \<Rightarrow> nat"
  string_height :: "string \<Rightarrow> nat"
  split :: "string \<Rightarrow> int \<Rightarrow> string"

subsection \<open>The widget state\<close>

record MenuItemInfo =
  info_x :: int
  info_y :: int
  info_row :: int
  info_column :: int
  info_text :: string
  info_tiles :: "nat list"
  info_heading :: bool

record UIMenu =
  m_height :: int
  m_hover_idx :: int
  m_min_col_width :: int
  m_force_scroll :: int
  m_initial_hover_snap :: bool
  m_scroll_context :: int
  m_nat_column_width :: int
  m_num_columns :: int
  item_info :: "MenuItemInfo list"
  row_heights :: "int list"
  m_mouse_pressed :: bool
  m_mouse_x :: int
  m_mouse_y :: int
  m_draw_tiles :: bool
  m_font_entry :: FontWrapper
  m_region_x :: int
  m_region_y :: int
  m_region_width :: int
  m_region_height :: int

definition item_pad :: int where
  "item_pad = 2"

definition pad_right :: int where
  "pad_right = 10"

subsection \<open>Layout\<close>

definition char_at :: "string \<Rightarrow> nat \<Rightarrow> char" where
  \<comment> \<open>\<^verbatim>\<open>s[i]\<close> on a \<^verbatim>\<open>std::string\<close>: \<^verbatim>\<open>s[s.size()]\<close> is the NUL character; a read further out is
      undefined in C++ and is given the same value here.\<close>
  "char_at s i = (if i < length s then s ! i else CHR 0x00)"

definition has_hotkey_prefix :: "string \<Rightarrow> bool" where
  "has_hotkey_prefix s =
     (let c1 = (of_char (char_at s 1) :: nat);
          letter = ((97 \<le> c1 \<and> c1 \<le> 122) \<or> (65 \<le> c1 \<and> c1 \<le> 90));
          plus = (char_at s 3 = CHR ''-'' \<or> char_at s 3 = CHR ''+'' \<or> char_at s 3 = CHR ''#'')
      in letter \<and> plus \<and> char_at s 0 = CHR '' '' \<and> char_at s 2 = CHR '' '' \<and> char_at s 4 = CHR '' '')"

text \<open>The local variables of \<^verbatim>\<open>do_layout\<close>, with the two members its loop updates.\<close>

record layout_vars =
  lv_column :: int
  lv_column_width :: int
  lv_row_height :: int
  lv_height :: int
  lv_scroll_context :: int
  lv_row_heights :: "int list"

definition close_row :: "layout_vars \<Rightarrow> layout_vars" where
  \<comment> \<open>The four statements that end a row: pad it, record the tallest row, add it to the
      height, push the boundary.\<close>
  "close_row v =
     (let rh = lv_row_height v + (if lv_row_height v = 0 then 0 else 2 * item_pad);
          h = lv_height v + rh
      in v\<lparr>lv_row_height := rh, lv_scroll_context := max (lv_scroll_context v) rh,
            lv_height := h, lv_row_heights := lv_row_heights v @ [h]\<rparr>)"

definition open_row :: "int \<Rightarrow> layout_vars \<Rightarrow> layout_vars" where
  \<comment> \<open>The block \<^verbatim>\<open>if (column == 0) { ... }\<close> at the head of the loop body.\<close>
  "open_row column v = (if column = 0 then (close_row v)\<lparr>lv_row_height := 0\<rparr> else v)"

definition heading_height :: "FontWrapper \<Rightarrow> bool \<Rightarrow> int \<Rightarrow> nat \<Rightarrow> MenuItemInfo \<Rightarrow> int" where
  \<comment> \<open>\<^verbatim>\<open>row_height\<close> of a heading: one line and its padding, or the wrapped title.\<close>
  "heading_height font draw_tiles mw i e =
     (let text_height = int (char_height font);
          text_width = int (string_width font (info_text e));
          row_height = text_height + (if i = 0 then 5 else 10)
      in if draw_tiles \<and> text_width > mw
         then max row_height (int (string_height font (split font (info_text e) mw)))
         else row_height)"

definition text_indent :: "bool \<Rightarrow> int" where
  "text_indent draw_tiles = (if draw_tiles then 38 else 0)"

definition wraps :: "FontWrapper \<Rightarrow> bool \<Rightarrow> bool \<Rightarrow> int \<Rightarrow> MenuItemInfo \<Rightarrow> bool" where
  \<comment> \<open>Both \<^verbatim>\<open>if\<close>s that guard the wrapping of an entry's text;
      \<^verbatim>\<open>entry.x\<close> is \<^verbatim>\<open>text_indent\<close> there.\<close>
  "wraps font draw_tiles no_wrap_rows max_column_width e =
     (\<not> no_wrap_rows
      \<and> int (string_width font (info_text e)) > max_column_width - text_indent draw_tiles - pad_right)"

definition item_text_sx :: "FontWrapper \<Rightarrow> bool \<Rightarrow> bool \<Rightarrow> int \<Rightarrow> MenuItemInfo \<Rightarrow> int" where
  \<comment> \<open>\<^verbatim>\<open>text_sx\<close> after the wrapping block: the width of the five-character hotkey prefix
      (\<^verbatim>\<open>entry.text.chop(5)\<close>) is added when the text wraps and has one.\<close>
  "item_text_sx font draw_tiles no_wrap_rows max_column_width e =
     (if wraps font draw_tiles no_wrap_rows max_column_width e \<and> has_hotkey_prefix (info_text e)
      then text_indent draw_tiles + int (string_width font (take 5 (info_text e)))
      else text_indent draw_tiles)"

definition item_height :: "FontWrapper \<Rightarrow> bool \<Rightarrow> bool \<Rightarrow> int \<Rightarrow> MenuItemInfo \<Rightarrow> int" where
  \<comment> \<open>\<^verbatim>\<open>item_height\<close> after the wrapping block; the five \<^verbatim>\<open>del_char\<close> calls are \<open>drop 5\<close>.\<close>
  "item_height font draw_tiles no_wrap_rows max_column_width e =
     (let text_height = int (char_height font);
          item_height0 = max text_height (if info_tiles e \<noteq> [] then 32 else 0);
          txt = (if has_hotkey_prefix (info_text e) then drop 5 (info_text e) else info_text e);
          w = max_column_width - item_text_sx font draw_tiles no_wrap_rows max_column_width e - pad_right;
          str_height = min (int (string_height font (split font txt w))) (text_height * 2)
      in if wraps font draw_tiles no_wrap_rows max_column_width e
         then max item_height0 str_height else item_height0)"

definition layout_entry ::
  "FontWrapper \<Rightarrow> bool \<Rightarrow> bool \<Rightarrow> int \<Rightarrow> int \<Rightarrow> nat \<Rightarrow> layout_vars \<Rightarrow> MenuItemInfo
     \<Rightarrow> MenuItemInfo \<times> layout_vars" where
  \<comment> \<open>One pass through the body of the \<^verbatim>\<open>for\<close> loop, for entry \<open>i\<close>.\<close>
  "layout_entry font draw_tiles no_wrap_rows mw num_columns i v e =
     (let max_column_width = c_div mw num_columns;
          column = (if info_heading e then 0 else c_mod (lv_column v + 1) num_columns);
          v1 = open_row column v;
          text_width = int (string_width font (info_text e));
          e1 = e\<lparr>info_y := lv_height v1, info_row := int (length (lv_row_heights v1)) - 1,
                 info_column := column\<rparr>
      in if info_heading e then
           (e1\<lparr>info_x := 0\<rparr>,
            v1\<lparr>lv_row_height := heading_height font draw_tiles mw i e,
               lv_column := num_columns - 1\<rparr>)
         else
           (e1\<lparr>info_x := text_indent draw_tiles\<rparr>,
            v1\<lparr>lv_column := column,
               lv_column_width := max (lv_column_width v1)
                 (item_text_sx font draw_tiles no_wrap_rows max_column_width e + text_width + pad_right),
               lv_row_height := max (lv_row_height v1)
                 (item_height font draw_tiles no_wrap_rows max_column_width e)\<rparr>))"

fun layout_loop ::
  "FontWrapper \<Rightarrow> bool \<Rightarrow> bool \<Rightarrow> int \<Rightarrow> int \<Rightarrow> nat \<Rightarrow> layout_vars \<Rightarrow> MenuItemInfo list
     \<Rightarrow> MenuItemInfo list \<Rightarrow> MenuItemInfo list \<times> layout_vars" where
  \<comment> \<open>The \<^verbatim>\<open>for\<close> loop from entry \<open>i\<close> on: \<open>done\<close> are the entries already laid out.\<close>
  "layout_loop font dt nw mw nc i v done [] = (done, v)"
| "layout_loop font dt nw mw nc i v done (e # es) =
     (case layout_entry font dt nw mw nc i v e of
        (e', v') \<Rightarrow> layout_loop font dt nw mw nc (Suc i) v' (done @ [e']) es)"

definition do_layout :: "nat \<Rightarrow> bool \<Rightarrow> UIMenu \<Rightarrow> int \<Rightarrow> int \<Rightarrow> error + UIMenu" where
  \<comment> \<open>\<^verbatim>\<open>UIMenu::do_layout(mw, num_columns)\<close>. \<open>n_items\<close> is \<^verbatim>\<open>m_menu->items.size()\<close> and
      \<open>no_wrap_rows\<close> is \<^verbatim>\<open>m_menu->is_set(MF_NO_WRAP_ROWS)\<close>. The loop reads \<^verbatim>\<open>item_info[i]\<close> for
      every \<open>i < n_items\<close>; entries of \<^verbatim>\<open>item_info\<close> beyond \<open>n_items\<close> are not touched.\<close>
  "do_layout n_items no_wrap_rows ui mw num_columns =
     (if num_columns = 0 then Inl DivideByZero
      else if length (item_info ui) < n_items then Inl OutOfBounds
      else
        (let min_column_width = (if m_min_col_width ui > 0 then m_min_col_width ui else 400);
             max_column_width = c_div mw num_columns;
             v0 = \<lparr>lv_column = -1, lv_column_width = 0, lv_row_height = 0, lv_height = 0,
                   lv_scroll_context = m_scroll_context ui, lv_row_heights = []\<rparr>
         in case layout_loop (m_font_entry ui) (m_draw_tiles ui) no_wrap_rows mw num_columns 0 v0 []
                   (take n_items (item_info ui)) of
              (infos, v) \<Rightarrow>
                (let v' = close_row v;
                     column_width = lv_column_width v' + 2 * item_pad
                 in Inr (ui\<lparr>item_info := infos @ drop n_items (item_info ui),
                            row_heights := lv_row_heights v',
                            m_scroll_context := lv_scroll_context v',
                            m_height := lv_height v',
                            m_nat_column_width :=
                              max min_column_width (min column_width max_column_width)\<rparr>))))"

subsection \<open>The menu\<close>

text \<open>
  Modelled from the spec: the flag, command and action enumerations are declared in headers
  outside \<^verbatim>\<open>menu.cc\<close>. A flag word is modelled as the set of the flags that are set, so
  \<^verbatim>\<open>is_set(f)\<close> and \<^verbatim>\<open>flags & f\<close> are both \<open>f \<in> flags m\<close>. \<open>CMD_OTHER\<close> stands for every
  command that \<^verbatim>\<open>process_command\<close> sends to its \<^verbatim>\<open>default\<close> case.
\<close>

datatype MenuFlag =
    MF_NOSELECT | MF_SINGLESELECT | MF_MULTISELECT | MF_NO_SELECT_QTY | MF_ANYPRINTABLE
  | MF_SELECT_BY_PAGE | MF_WRAP | MF_ALLOW_FILTER | MF_NO_WRAP_ROWS | MF_PRESELECTED
  | MF_UNCANCEL | MF_SPECIAL_MINUS | MF_ARROWS_SELECT | MF_SHOW_EMPTY

datatype command_type =
    CMD_NO_CMD | CMD_MENU_UP | CMD_MENU_DOWN | CMD_MENU_LINE_UP | CMD_MENU_LINE_DOWN
  | CMD_MENU_PAGE_UP | CMD_MENU_PAGE_DOWN | CMD_MENU_SCROLL_TO_TOP | CMD_MENU_SCROLL_TO_END
  | CMD_MENU_SEARCH | CMD_MENU_CYCLE_MODE | CMD_MENU_CYCLE_MODE_REVERSE | CMD_MENU_CYCLE_HEADERS
  | CMD_MENU_HELP | CMD_MENU_EXIT | CMD_OTHER

datatype action = ACT_EXECUTE | ACT_EXAMINE | ACT_MISC

datatype cycle = CYCLE_NONE | CYCLE_TOGGLE | CYCLE_CYCLE

record Scroller =
  m_scroll :: int
  region_height :: int

text \<open>
  \<open>sel\<close> holds the positions in \<open>items\<close> of the entries that \<^verbatim>\<open>sel\<close> points to.
  \<open>ui_menu\<close> and \<open>scroller\<close> are \<^verbatim>\<open>m_ui.menu\<close> and \<^verbatim>\<open>m_ui.scroller\<close>.
\<close>

record Menu =
  flags :: "MenuFlag set"
  items :: "MenuEntry list"
  sel :: "nat list"
  select_filter :: "string list"
  num :: int
  lastch :: int
  last_hovered :: int
  menu_action :: action
  action_cycle :: cycle
  f_keyfilter :: "(int \<Rightarrow> int) option"
  on_single_selection :: "(MenuEntry \<Rightarrow> bool) option"
  ui_menu :: UIMenu
  scroller :: Scroller

text \<open>
  The collaborators outside \<^verbatim>\<open>menu.cc\<close>, taken as parameters: the key table
  (\<^verbatim>\<open>key_to_command(keyin, KMC_MENU)\<close>), the hang-up flag, pattern matching
  (\<open>pattern_matches p t\<close> is \<^verbatim>\<open>text_pattern(p).matches(t)\<close>), the line and last key that
  \<^verbatim>\<open>title_prompt\<close> reads from the user, key names, the text an entry is filtered by, the
  options \<^verbatim>\<open>tile_menu_icons\<close> and \<^verbatim>\<open>menu_arrow_control\<close>, and the constants \<^verbatim>\<open>UI_SCROLLER_SHADE_SIZE\<close>, \<^verbatim>\<open>CK_ENTER\<close>,
  \<^verbatim>\<open>CK_REDRAW\<close>, \<^verbatim>\<open>CK_MOUSE_B1\<close>, \<^verbatim>\<open>CK_MOUSE_CLICK\<close> and \<^verbatim>\<open>ESCAPE\<close>.
\<close>

record Env =
  key_to_command :: "int \<Rightarrow> command_type"
  seen_hups :: bool
  pattern_matches :: "string \<Rightarrow> string \<Rightarrow> bool"
  prompt_line :: string
  prompt_lastch :: int
  keycode_to_name :: "int \<Rightarrow> string"
  get_filter_text :: "MenuEntry \<Rightarrow> string"
  tile_menu_icons :: bool
  menu_arrow_control :: bool
  UI_SCROLLER_SHADE_SIZE :: int
  CK_ENTER :: int
  CK_REDRAW :: int
  CK_MOUSE_B1 :: int
  CK_MOUSE_CLICK :: int
  ESCAPE :: int

definition INT_MAX :: int where
  "INT_MAX = 2147483647"

definition set_flags :: "Env \<Rightarrow> MenuFlag set \<Rightarrow> MenuFlag set" where
  \<comment> \<open>\<^verbatim>\<open>Menu::set_flags(new_flags)\<close>: the value it gives to \<^verbatim>\<open>flags\<close>. \<^verbatim>\<open>MF_INIT_HOVER\<close>, which it
      clears together with \<^verbatim>\<open>MF_ARROWS_SELECT\<close>, is not among the flags of the model.\<close>
  "set_flags env new_flags =
     (if \<not> menu_arrow_control env \<or> MF_NOSELECT \<in> new_flags
      then new_flags - {MF_ARROWS_SELECT} else new_flags)"

definition is_set :: "Menu \<Rightarrow> MenuFlag \<Rightarrow> bool" where
  "is_set m f = (f \<in> flags m)"

definition scroller_set_scroll :: "Menu \<Rightarrow> int \<Rightarrow> Menu" where
  \<comment> \<open>Modelled from the spec: \<^verbatim>\<open>Scroller::set_scroll\<close> (in \<^verbatim>\<open>ui.cc\<close>) stores the offset; the
      framework clamps it at its next layout pass, which is not part of this core.\<close>
  "scroller_set_scroll m y = m\<lparr>scroller := (scroller m)\<lparr>m_scroll := y\<rparr>\<rparr>"

definition get_scroll :: "Menu \<Rightarrow> int" where
  "get_scroll m = m_scroll (scroller m)"

subsection \<open>Entries and their layout records\<close>

definition get_text_preface :: "Env \<Rightarrow> MenuEntry \<Rightarrow> string" where
  "get_text_preface env e =
     (if level e = MEL_ITEM \<and> hotkeys_count e \<noteq> 0
        then [CHR '' ''] @ keycode_to_name env (hd (hotkeys e)) @ [CHR '' '', CHR ''-'', CHR '' '']
      else if level e = MEL_ITEM \<and> indent_no_hotkeys e then replicate 5 (CHR '' '')
      else [])"

definition get_text :: "Env \<Rightarrow> MenuEntry \<Rightarrow> string" where
  "get_text env e = get_text_preface env e @ entry_text e"

definition blank_info :: MenuItemInfo where
  \<comment> \<open>A value-initialised \<^verbatim>\<open>MenuItemInfo\<close>, as \<^verbatim>\<open>vector::resize\<close> adds.\<close>
  "blank_info = \<lparr>info_x = 0, info_y = 0, info_row = 0, info_column = 0, info_text = [],
     info_tiles = [], info_heading = False\<rparr>"

definition resize :: "nat \<Rightarrow> MenuItemInfo list \<Rightarrow> MenuItemInfo list" where
  "resize n xs = take n xs @ replicate (n - length xs) blank_info"

definition get_tiles :: "Env \<Rightarrow> MenuEntry \<Rightarrow> nat list" where
  \<comment> \<open>\<^verbatim>\<open>MenuEntry::get_tiles(tileset)\<close> on a cleared \<^verbatim>\<open>tileset\<close>: nothing is copied when
      \<^verbatim>\<open>Options.tile_menu_icons\<close> is off or the entry has no tiles.\<close>
  "get_tiles env me = (if \<not> tile_menu_icons env \<or> tiles me = [] then [] else tiles me)"

definition update_item :: "Env \<Rightarrow> Menu \<Rightarrow> int \<Rightarrow> error + Menu" where
  \<comment> \<open>\<^verbatim>\<open>UIMenu::update_item(index)\<close>. The colour of the text is outside the model.\<close>
  "update_item env m index =
     (if \<not> index < int (length (items m)) then Inl AssertFailed
      else bindE (at (items m) index) (\<lambda>me.
        let infos = resize (length (items m)) (item_info (ui_menu m));
            entry = infos ! nat index;
            entry' = entry\<lparr>info_text := get_text env me,
                           info_heading := (level me = MEL_TITLE \<or> level me = MEL_SUBTITLE),
                           info_tiles := get_tiles env me\<rparr>
        in Inr (m\<lparr>ui_menu := (ui_menu m)\<lparr>item_info := infos[nat index := entry']\<rparr>\<rparr>)))"

definition update_items :: "Env \<Rightarrow> Menu \<Rightarrow> error + Menu" where
  \<comment> \<open>\<^verbatim>\<open>UIMenu::update_items()\<close>.\<close>
  "update_items env m =
     (let m1 = m\<lparr>ui_menu := (ui_menu m)\<lparr>item_info := resize (length (items m)) (item_info (ui_menu m))\<rparr>\<rparr>
      in bindE (for_each (\<lambda>m' i. update_item env m' (int i)) m1 [0..<length (items m)]) (\<lambda>m2.
           Inr (m2\<lparr>ui_menu := (ui_menu m2)\<lparr>m_draw_tiles :=
             (if list_ex (\<lambda>entry. \<not> info_heading entry \<and> info_tiles entry \<noteq> []) (item_info (ui_menu m2))
              then tile_menu_icons env else False)\<rparr>\<rparr>)))"

definition menu_do_layout :: "Menu \<Rightarrow> int \<Rightarrow> int \<Rightarrow> error + Menu" where
  \<comment> \<open>\<^verbatim>\<open>m_ui.menu->do_layout(mw, num_columns)\<close> on the menu's own widget.\<close>
  "menu_do_layout m mw num_columns =
     bindE (do_layout (length (items m)) (is_set m MF_NO_WRAP_ROWS) (ui_menu m) mw num_columns)
       (\<lambda>ui. Inr (m\<lparr>ui_menu := ui\<rparr>))"

subsection \<open>Visible range and page height\<close>

fun vis_min_loop :: "int list \<Rightarrow> int \<Rightarrow> nat \<Rightarrow> MenuItemInfo list \<Rightarrow> error + (nat \<times> nat \<times> MenuItemInfo list)" where
  \<comment> \<open>The first loop of \<^verbatim>\<open>is_visible_item_range\<close> from entry \<open>i\<close> on: the result is \<^verbatim>\<open>v_min\<close>,
      the \<open>i\<close> the loop stopped at and the entries from there on.\<close>
  "vis_min_loop rh scroll i [] = Inr (0, i, [])"
| "vis_min_loop rh scroll i (e # es) =
     bindE (at rh (info_row e + 1)) (\<lambda>h.
       if h > scroll then Inr (i, i, e # es) else vis_min_loop rh scroll (Suc i) es)"

fun vis_max_loop :: "int list \<Rightarrow> int \<Rightarrow> nat \<Rightarrow> MenuItemInfo list \<Rightarrow> error + nat" where
  \<comment> \<open>The second loop: \<^verbatim>\<open>v_max\<close>, which stays \<^verbatim>\<open>item_info.size()\<close> when no entry breaks.\<close>
  "vis_max_loop rh bound i [] = Inr i"
| "vis_max_loop rh bound i (e # es) =
     bindE (at rh (info_row e)) (\<lambda>h.
       if h \<ge> bound then Inr i else vis_max_loop rh bound (Suc i) es)"

definition visible_range :: "UIMenu \<Rightarrow> nat \<Rightarrow> int \<Rightarrow> int \<Rightarrow> error + (nat \<times> nat)" where
  \<comment> \<open>\<^verbatim>\<open>UIMenu::is_visible_item_range\<close> for \<open>n_items\<close> entries of the menu, scroll offset
      \<open>scroll\<close> and viewport height \<open>viewport_height\<close>.\<close>
  "visible_range ui n_items scroll viewport_height =
     bindE (vis_min_loop (row_heights ui) scroll 0 (item_info ui)) (\<lambda>(v_min, i, es).
       bindE (vis_max_loop (row_heights ui) (int32 (scroll + viewport_height)) i es) (\<lambda>v_max.
         Inr (v_min, min v_max n_items)))"

definition is_visible_item_range :: "Menu \<Rightarrow> error + (nat \<times> nat)" where
  "is_visible_item_range m =
     visible_range (ui_menu m) (length (items m)) (get_scroll m) (region_height (scroller m))"

definition dec_size_t :: "nat \<Rightarrow> nat" where
  \<comment> \<open>\<^verbatim>\<open>n - 1\<close> on a 64-bit \<^verbatim>\<open>size_t\<close>.\<close>
  "dec_size_t n = (if n = 0 then 2 ^ 64 - 1 else n - 1)"

function advance_a :: "MenuItemInfo list \<Rightarrow> nat \<Rightarrow> nat \<Rightarrow> error + (nat \<times> nat)" where
  \<comment> \<open>The \<^verbatim>\<open>do ... while (item_info[a].column != 0)\<close> loop: the new \<open>a\<close> and \<open>num_items\<close>.\<close>
  "advance_a infos a num_items =
     (if a < length infos then
        (let num_items' = (if info_heading (infos ! a) then num_items else dec_size_t num_items)
         in if Suc a < length infos then
              (if info_column (infos ! Suc a) \<noteq> 0 then advance_a infos (Suc a) num_items'
               else Inr (Suc a, num_items'))
            else Inl OutOfBounds)
      else Inl OutOfBounds)"
  by pat_completeness auto
termination
  by (relation "measure (\<lambda>(infos, a, n). length infos - a)") auto

declare advance_a.simps [simp del]


lemma advance_a_bounds:
  "advance_a infos a k = Inr (a', k') \<Longrightarrow> a < a' \<and> a' < length infos"
proof (induction infos a k rule: advance_a.induct)
  case (1 infos a num_items)
  show ?case
  proof (cases "a < length infos \<and> Suc a < length infos")
    case False
    then show ?thesis using "1.prems"
      by (auto simp: advance_a.simps[of infos a num_items] Let_def split: if_splits)
  next
    case True
    show ?thesis
    proof (cases "info_column (infos ! Suc a) \<noteq> 0")
      case False
      then show ?thesis using True "1.prems"
        by (auto simp: advance_a.simps[of infos a num_items] Let_def)
    next
      case nz: True
      define k1 where "k1 = (if info_heading (infos ! a) then num_items else dec_size_t num_items)"
      have "advance_a infos (Suc a) k1 = Inr (a', k')"
        using True nz "1.prems" by (simp add: advance_a.simps[of infos a num_items] Let_def k1_def)
      then have "Suc a < a' \<and> a' < length infos"
        using "1.IH"[of k1] True nz by (simp add: k1_def)
      then show ?thesis by simp
    qed
  qed
qed

definition window_delta :: "MenuItemInfo list \<Rightarrow> int list \<Rightarrow> nat \<Rightarrow> nat \<Rightarrow> error + int" where
  \<comment> \<open>\<^verbatim>\<open>delta\<close> in \<^verbatim>\<open>get_max_viewport_height\<close>, for the window from \<open>a\<close> to \<open>b\<close>.\<close>
  "window_delta infos rh a b =
     bindE (at infos (int b)) (\<lambda>eb.
     bindE (at infos (int b - 1)) (\<lambda>eb1.
     bindE (at infos (int a)) (\<lambda>ea.
     bindE (at rh (info_row eb)) (\<lambda>hb.
     bindE (at rh (info_row eb1)) (\<lambda>hb1.
       let item_h = hb - hb1 in Inr (item_h + info_y eb1 - info_y ea))))))"

function mvh_loop :: "MenuItemInfo list \<Rightarrow> int list \<Rightarrow> nat \<Rightarrow> nat \<Rightarrow> nat \<Rightarrow> int \<Rightarrow> error + int" where
  \<comment> \<open>The \<^verbatim>\<open>while (b < item_info.size())\<close> loop. With \<^verbatim>\<open>num_items\<close> above 52 neither branch
      is taken and the C++ loop spins without progress: \<open>NoReturn\<close>.\<close>
  "mvh_loop infos rh a b num_items max_viewport_height =
     (if b < length infos then
        (if num_items < 52 then
           mvh_loop infos rh a (Suc b) (if info_heading (infos ! b) then num_items else Suc num_items)
             max_viewport_height
         else if num_items = 52 then
           (case window_delta infos rh a b of
              Inl e \<Rightarrow> Inl e
            | Inr delta \<Rightarrow>
                (case advance_a infos a num_items of
                   Inl e \<Rightarrow> Inl e
                 | Inr (a', num_items') \<Rightarrow>
                     mvh_loop infos rh a' b num_items' (min max_viewport_height delta)))
         else Inl NoReturn)
      else Inr max_viewport_height)"
  by pat_completeness auto
termination
proof (relation "measure (\<lambda>(infos, rh, a, b, k, v). (length infos - b) + (length infos - a))", goal_cases)
  case 1
  show ?case by simp
next
  case (2 infos rh a b num_items max_viewport_height)
  then show ?case by simp
next
  case (3 infos rh a b num_items max_viewport_height delta x a' k')
  then have "a < a' \<and> a' < length infos" using advance_a_bounds[of infos a num_items a' k'] by simp
  then have "(length infos - b) + (length infos - a') < (length infos - b) + (length infos - a)"
    by arith
  then show ?case by simp
qed

declare mvh_loop.simps [simp del]

definition get_max_viewport_height :: "UIMenu \<Rightarrow> error + int" where
  "get_max_viewport_height ui = mvh_loop (item_info ui) (row_heights ui) 0 0 0 INT_MAX"

subsection \<open>Regions, pages and scrolling\<close>

text \<open>
  The default arguments of \<^verbatim>\<open>in_page\<close>, \<^verbatim>\<open>get_first_visible\<close>, \<^verbatim>\<open>set_hovered\<close>,
  \<^verbatim>\<open>cycle_hover\<close>, \<^verbatim>\<open>deselect_all\<close> and \<^verbatim>\<open>select_index\<close> are declared in \<^verbatim>\<open>menu.h\<close>. The calls
  in \<^verbatim>\<open>menu.cc\<close> that leave them out are modelled with \<^verbatim>\<open>strict = false\<close>,
  \<^verbatim>\<open>skip_init_headers = false\<close>, \<^verbatim>\<open>force = false\<close>, \<^verbatim>\<open>reverse = false\<close>,
  \<^verbatim>\<open>update_view = true\<close> and \<^verbatim>\<open>qty = -1\<close>.
\<close>

definition get_item_region :: "Menu \<Rightarrow> int \<Rightarrow> error + (int \<times> int)" where
  \<comment> \<open>\<^verbatim>\<open>UIMenu::get_item_region(index, &y1, &y2)\<close>; both boundaries are read.\<close>
  "get_item_region m index =
     (if \<not> (0 \<le> index \<and> index < int (length (items m))) then Inl AssertFailed
      else bindE (at (item_info (ui_menu m)) index) (\<lambda>entry.
        let row = info_row entry in
        if row + 1 < 0 \<or> row + 1 \<ge> int (length (row_heights (ui_menu m))) then Inr (-1, -1)
        else bindE (at (row_heights (ui_menu m)) row) (\<lambda>y1.
             bindE (at (row_heights (ui_menu m)) (row + 1)) (\<lambda>y2. Inr (y1, y2)))))"

definition in_page :: "Menu \<Rightarrow> int \<Rightarrow> bool \<Rightarrow> error + bool" where
  "in_page m index strict =
     bindE (get_item_region m index) (\<lambda>(y1, y2).
       let vph = region_height (scroller m);
           vpy = get_scroll m;
           upper_in = (vpy \<le> y1 \<and> y1 \<le> int32 (vpy + vph));
           lower_in = (vpy \<le> y2 \<and> y2 \<le> int32 (vpy + vph))
       in Inr (if strict then lower_in \<and> upper_in else lower_in \<or> upper_in))"

definition first_visible_at :: "Menu \<Rightarrow> bool \<Rightarrow> nat \<Rightarrow> error + int option" where
  \<comment> \<open>The body of the loop of \<^verbatim>\<open>get_first_visible\<close> at entry \<open>i\<close>.\<close>
  "first_visible_at m skip_init_headers i =
     bindE (get_item_region m (int i)) (\<lambda>(item_y1, item_y2).
       if item_y1 \<ge> get_scroll m
          \<and> \<not> (skip_init_headers
               \<and> (level (items m ! i) = MEL_TITLE \<or> level (items m ! i) = MEL_SUBTITLE))
       then Inr (Some (int i))
       else Inr None)"

definition get_first_visible :: "Menu \<Rightarrow> bool \<Rightarrow> error + int" where
  "get_first_visible m skip_init_headers =
     bindE (find_first (first_visible_at m skip_init_headers) [0..<length (items m)]) (\<lambda>found.
       case found of Some i \<Rightarrow> Inr i | None \<Rightarrow> Inr (int (length (items m))))"

function header_first :: "MenuEntry list \<Rightarrow> int \<Rightarrow> error + int" where
  \<comment> \<open>\<^verbatim>\<open>while (first >= 1 && items[first - 1]->level != MEL_ITEM) first--;\<close>\<close>
  "header_first its first =
     (if first \<ge> 1 then
        (case at its (first - 1) of
           Inl e \<Rightarrow> Inl e
         | Inr me \<Rightarrow> if level me \<noteq> MEL_ITEM then header_first its (first - 1) else Inr first)
      else Inr first)"
  by pat_completeness auto
termination
  by (relation "measure (\<lambda>(its, first). nat first)") auto

declare header_first.simps [simp del]

function header_last :: "MenuEntry list \<Rightarrow> int \<Rightarrow> error + int" where
  \<comment> \<open>\<^verbatim>\<open>while (last + 1 < size && items[last]->level != MEL_ITEM) last++;\<close>\<close>
  "header_last its lst =
     (if lst + 1 < int (length its) then
        (case at its lst of
           Inl e \<Rightarrow> Inl e
         | Inr me \<Rightarrow> if level me \<noteq> MEL_ITEM then header_last its (lst + 1) else Inr lst)
      else Inr lst)"
  by pat_completeness auto
termination
  by (relation "measure (\<lambda>(its, lst). nat (int (length its) - lst))") auto

declare header_last.simps [simp del]

definition get_header_block :: "Menu \<Rightarrow> int \<Rightarrow> error + (int \<times> int)" where
  "get_header_block m index =
     bindE (header_first (items m) index) (\<lambda>first.
     bindE (header_last (items m) index) (\<lambda>lst. Inr (first, lst)))"

definition region_with_headers :: "Menu \<Rightarrow> int \<Rightarrow> error + (int \<times> int)" where
  \<comment> \<open>The lines that \<^verbatim>\<open>set_scroll\<close>, \<^verbatim>\<open>item_visible\<close> and \<^verbatim>\<open>snap_in_page\<close> share: the region
      of the entry, with \<open>y1\<close> moved up to the first of the headers right before it.\<close>
  "region_with_headers m index =
     bindE (get_item_region m index) (\<lambda>(y1, y2).
     bindE (get_header_block m index) (\<lambda>(any_preceding_headers, lst).
       if any_preceding_headers \<noteq> index
       then bindE (get_item_region m any_preceding_headers) (\<lambda>(y1', y2'). Inr (y1', y2))
       else Inr (y1, y2)))"

definition shade_half :: "Env \<Rightarrow> int" where
  \<comment> \<open>\<^verbatim>\<open>UI_SCROLLER_SHADE_SIZE / 2\<close>\<close>
  "shade_half env = c_div (UI_SCROLLER_SHADE_SIZE env) 2"

definition set_scroll :: "Env \<Rightarrow> Menu \<Rightarrow> int \<Rightarrow> error + (bool \<times> Menu)" where
  \<comment> \<open>\<^verbatim>\<open>Menu::set_scroll(index)\<close>\<close>
  "set_scroll env m index =
     (let vph = region_height (scroller m) in
      if vph = 0 then Inr (False, m\<lparr>ui_menu := (ui_menu m)\<lparr>m_force_scroll := index\<rparr>\<rparr>)
      else if index < 0 \<or> index \<ge> int (length (items m)) then Inr (False, m)
      else bindE (region_with_headers m index) (\<lambda>(y1, y2).
        let vpy = get_scroll m
        in Inr (vpy \<noteq> y1, scroller_set_scroll m (y1 - shade_half env))))"

definition item_visible :: "Menu \<Rightarrow> int \<Rightarrow> error + bool" where
  "item_visible m index =
     (let vph = region_height (scroller m) in
      if vph = 0 then Inr False
      else if index < 0 \<or> index \<ge> int (length (items m)) then Inr False
      else bindE (region_with_headers m index) (\<lambda>(y1, y2).
        let vpy = get_scroll m in Inr (y1 \<ge> vpy \<and> y2 < int32 (vpy + vph))))"

definition snap_in_page :: "Env \<Rightarrow> Menu \<Rightarrow> int \<Rightarrow> error + (bool \<times> Menu)" where
  \<comment> \<open>\<^verbatim>\<open>Menu::snap_in_page(index)\<close>\<close>
  "snap_in_page env m index =
     (let vph = region_height (scroller m) in
      if vph = 0 then Inr (False, m)
      else if index < 0 \<or> index \<ge> int (length (items m)) then Inr (False, m)
      else bindE (region_with_headers m index) (\<lambda>(y1, y2).
        let vpy = get_scroll m in
        if y2 \<ge> int32 (vpy + vph)
        then Inr (True, scroller_set_scroll m (y2 - vph + shade_half env))
        else if y1 < vpy then Inr (True, scroller_set_scroll m (y1 - shade_half env))
        else Inr (False, m)))"

definition set_hovered :: "Env \<Rightarrow> Menu \<Rightarrow> int \<Rightarrow> bool \<Rightarrow> error + Menu" where
  \<comment> \<open>\<^verbatim>\<open>Menu::set_hovered(index, force)\<close>; \<^verbatim>\<open>shown_items()\<close> is \<^verbatim>\<open>item_info.size()\<close>, and
      \<^verbatim>\<open>set_hovered_entry\<close> stores \<^verbatim>\<open>m_hover_idx\<close> (its rendering is outside the model).\<close>
  "set_hovered env m index force =
     (if \<not> force \<and> \<not> is_set m MF_ARROWS_SELECT
      then bindE (snap_in_page env m index) (\<lambda>(r, m'). Inr m')
      else
        (let m1 = m\<lparr>last_hovered := min index (int (length (items m)) - 1)\<rparr> in
         if item_info (ui_menu m1) = [] then Inr m1
         else
           (let m2 = m1\<lparr>ui_menu := (ui_menu m1)\<lparr>m_hover_idx := last_hovered m1\<rparr>\<rparr> in
            if last_hovered m2 \<ge> 0
            then bindE (snap_in_page env m2 (last_hovered m2)) (\<lambda>(r, m'). Inr m')
            else Inr m2)))"


subsection \<open>Hover cycling\<close>

function hover_scan :: "Menu \<Rightarrow> bool \<Rightarrow> int \<Rightarrow> int \<Rightarrow> int \<Rightarrow> error + int option" where
  \<comment> \<open>The \<^verbatim>\<open>while (items_tried < max_items)\<close> loop of \<^verbatim>\<open>cycle_hover\<close>: \<open>Some h\<close> when an
      entry of level \<^verbatim>\<open>MEL_ITEM\<close> was found at \<open>h\<close>, \<open>None\<close> when \<^verbatim>\<open>found\<close> stays false.\<close>
  "hover_scan m reverse max_items items_tried new_hover =
     (if items_tried < max_items then
        (let nh1 = new_hover + (if reverse then -1 else 1);
             sz = int (length (items m));
             nh2 = (if is_set m MF_WRAP \<and> sz > 0 then c_mod (nh1 + sz) sz else nh1);
             nh3 = max 0 (min nh2 (sz - 1))
         in case at (items m) nh3 of
              Inl e \<Rightarrow> Inl e
            | Inr me \<Rightarrow>
                if level me = MEL_ITEM then Inr (Some nh3)
                else hover_scan m reverse max_items (items_tried + 1) nh3)
      else Inr None)"
  by pat_completeness auto
termination
  by (relation "measure (\<lambda>(m, reverse, max_items, items_tried, new_hover). nat (max_items - items_tried))")
    auto

declare hover_scan.simps [simp del]

definition cycle_hover :: "Env \<Rightarrow> Menu \<Rightarrow> bool \<Rightarrow> error + Menu" where
  \<comment> \<open>\<^verbatim>\<open>Menu::cycle_hover(reverse)\<close>\<close>
  "cycle_hover env m reverse =
     (if \<not> is_set m MF_ARROWS_SELECT then Inr m
      else
        (let max_items = (if is_set m MF_WRAP then int (length (items m))
                          else if reverse then last_hovered m
                          else int (length (items m)) - max (last_hovered m) 0);
             new_hover = (if reverse \<and> last_hovered m < 0 then 0 else last_hovered m)
         in bindE (hover_scan m reverse max_items 0 new_hover) (\<lambda>found.
              case found of
                None \<Rightarrow> Inr m
              | Some h \<Rightarrow> set_hovered env m h False)))"

subsection \<open>Selection\<close>

definition key_is_minus :: "int \<Rightarrow> bool" where
  \<comment> \<open>\<^verbatim>\<open>_key_is_minus\<close> in the local-tiles build: \<^verbatim>\<open>keyin == '-'\<close>\<close>
  "key_is_minus keyin = (keyin = 45)"

definition is_hotkey :: "Menu \<Rightarrow> int \<Rightarrow> int \<Rightarrow> error + bool" where
  \<comment> \<open>\<^verbatim>\<open>Menu::is_hotkey(i, key)\<close>; \<^verbatim>\<open>in_page(i)\<close> is evaluated only for a hotkey under
      \<^verbatim>\<open>MF_SELECT_BY_PAGE\<close>.\<close>
  "is_hotkey m i key =
     (let key' = (if key_is_minus key then 45 else key) in
      bindE (at (items m) i) (\<lambda>e.
        if entry_is_hotkey e key'
        then (if \<not> is_set m MF_SELECT_BY_PAGE then Inr True else in_page m i False)
        else Inr False))"

definition is_selectable :: "Env \<Rightarrow> Menu \<Rightarrow> nat \<Rightarrow> bool" where
  "is_selectable env m item =
     (if select_filter m = [] then True
      else list_ex (\<lambda>pat. pattern_matches env pat (get_filter_text env (items m ! item)))
             (select_filter m))"

definition select_item_index :: "Env \<Rightarrow> Menu \<Rightarrow> int \<Rightarrow> int \<Rightarrow> error + Menu" where
  \<comment> \<open>\<^verbatim>\<open>Menu::select_item_index(idx, qty)\<close>\<close>
  "select_item_index env m idx qty =
     bindE (at (items m) idx) (\<lambda>e.
       update_item env (m\<lparr>items := (items m)[nat idx := select e qty]\<rparr>) idx)"

definition select_step :: "Env \<Rightarrow> int \<Rightarrow> bool \<Rightarrow> Menu \<Rightarrow> nat \<Rightarrow> error + Menu" where
  \<comment> \<open>The body of the two \<^verbatim>\<open>for\<close> loops of \<^verbatim>\<open>select_index\<close> at entry \<open>i\<close>; \<open>filtered\<close> is true
      in the first of them, which also asks \<^verbatim>\<open>qty != -2 || is_selectable(i)\<close>.\<close>
  "select_step env qty filtered m i =
     bindE (at (items m) (int i)) (\<lambda>e.
       if level e \<noteq> MEL_ITEM \<or> hotkeys e = [] then Inr m
       else bindE (is_hotkey m (int i) (hd (hotkeys e))) (\<lambda>hk.
         if hk \<and> (\<not> filtered \<or> qty \<noteq> -2 \<or> is_selectable env m i)
         then select_item_index env m (int i) qty
         else Inr m))"

definition select_index :: "Env \<Rightarrow> Menu \<Rightarrow> int \<Rightarrow> int \<Rightarrow> error + Menu" where
  \<comment> \<open>\<^verbatim>\<open>Menu::select_index(index, qty)\<close>\<close>
  "select_index env m index qty =
     bindE (get_first_visible m False) (\<lambda>first_vis.
       let si = (if index = -1 then first_vis else index) in
       if index = -1 then
         (if MF_MULTISELECT \<in> flags m
          then for_each (select_step env qty True) m [0..<length (items m)]
          else Inr m)
       else bindE (at (items m) si) (\<lambda>e.
         if level e = MEL_SUBTITLE \<and> MF_MULTISELECT \<in> flags m
         then for_each (select_step env qty False) m [nat (si + 1)..<length (items m)]
         else if level e = MEL_ITEM \<and> (MF_SINGLESELECT \<in> flags m \<or> MF_MULTISELECT \<in> flags m)
         then select_item_index env m si qty
         else Inr m))"




definition primary_at :: "Menu \<Rightarrow> int \<Rightarrow> int \<Rightarrow> nat \<Rightarrow> error + int option" where
  \<comment> \<open>The body of the first loop of \<^verbatim>\<open>select_items\<close> at step \<open>i\<close>: the index it selects and
      returns at, if it does.\<close>
  "primary_at m key first_entry i =
     (let final = int (length (items m));
          index = c_mod (int i + first_entry) final
      in bindE (is_hotkey m index key) (\<lambda>hk.
           if \<not> hk then Inr None
           else bindE (at (items m) index) (\<lambda>e.
             bindE (at (hotkeys e) 0) (\<lambda>h0.
               if h0 = key \<or> is_set m MF_SINGLESELECT then Inr (Some index)
               else Inr None))))"

definition secondary_step :: "Env \<Rightarrow> int \<Rightarrow> int \<Rightarrow> int \<times> int \<times> Menu \<Rightarrow> nat \<Rightarrow> error + (int \<times> int \<times> Menu)" where
  \<comment> \<open>The body of the second loop of \<^verbatim>\<open>select_items\<close> at entry \<open>i\<close>, on \<^verbatim>\<open>first_snap\<close>,
      \<^verbatim>\<open>last_snap\<close> and the menu.\<close>
  "secondary_step env key qty s i =
     (case s of (first_snap, last_snap, m) \<Rightarrow>
        bindE (is_hotkey m (int i) key) (\<lambda>hk.
          if hk then
            bindE (select_index env m (int i) qty) (\<lambda>m'.
              Inr (if first_snap < 0 then int i else first_snap, int i, m'))
          else Inr (first_snap, last_snap, m)))"

definition select_items :: "Env \<Rightarrow> Menu \<Rightarrow> int \<Rightarrow> int \<Rightarrow> error + Menu" where
  \<comment> \<open>\<^verbatim>\<open>Menu::select_items(key, qty)\<close>; 44, 42 and 45 are \<^verbatim>\<open>','\<close>, \<^verbatim>\<open>'*'\<close> and \<^verbatim>\<open>'-'\<close>.\<close>
  "select_items env m key qty =
     (if key = 44 \<and> MF_MULTISELECT \<in> flags m then select_index env m (-1) (-2)
      else if key = 42 \<and> MF_MULTISELECT \<in> flags m then select_index env m (-1) (-1)
      else if key_is_minus key \<and> MF_MULTISELECT \<in> flags m then select_index env m (-1) 0
      else
        bindE (get_first_visible m False) (\<lambda>first_entry.
        bindE (find_first (primary_at m key first_entry) [0..<length (items m)]) (\<lambda>found.
          case found of
            Some index \<Rightarrow>
              bindE (select_index env m index qty) (\<lambda>m1. set_hovered env m1 index False)
          | None \<Rightarrow>
              if is_set m MF_MULTISELECT then
                bindE (for_each (secondary_step env key qty) (-1, -1, m) [0..<length (items m)])
                  (\<lambda>(first_snap, last_snap, m1).
                    if first_snap \<ge> 0 then
                      bindE (snap_in_page env m1 last_snap) (\<lambda>(r, m2).
                        set_hovered env m2 first_snap False)
                    else Inr m1)
              else Inr m)))"


subsection \<open>Line and page scrolling\<close>


definition line_down :: "Menu \<Rightarrow> error + (bool \<times> Menu)" where
  "line_down m =
     bindE (get_first_visible m False) (\<lambda>index.
     bindE (get_item_region m index) (\<lambda>(first_vis_y, y2).
     bindE (find_first (\<lambda>i. bindE (get_item_region m (int i)) (\<lambda>(y, y2').
                          if y = first_vis_y then Inr None else Inr (Some y)))
              [nat (index + 1)..<length (items m)]) (\<lambda>found.
       case found of
         Some y \<Rightarrow> Inr (True, scroller_set_scroll m y)
       | None \<Rightarrow> Inr (False, m))))"





subsection \<open>Header blocks and the action mode\<close>










subsection \<open>Command dispatch\<close>


definition drop_result :: "error + (bool \<times> Menu) \<Rightarrow> error + Menu" where
  \<comment> \<open>A call whose \<^verbatim>\<open>bool\<close> result is not used.\<close>
  "drop_result r = bindE r (\<lambda>(b, m). Inr m)"





















subsection \<open>Allocation of the widget\<close>

definition hover_hit :: "Menu \<Rightarrow> bool \<Rightarrow> nat \<Rightarrow> error + nat option" where
  \<comment> \<open>The body of the loop of \<^verbatim>\<open>update_hovered_entry\<close> at entry \<open>i\<close>: \<open>Some i\<close> when the mouse
      is over the entry.\<close>
  "hover_hit m force i =
     (let ui = ui_menu m;
          x = m_mouse_x ui - m_region_x ui;
          y = m_mouse_y ui - m_region_y ui
      in bindE (at (item_info ui) (int i)) (\<lambda>entry.
           if info_heading entry then Inr None
           else bindE (at (items m) (int i)) (\<lambda>me.
             if hotkeys_count me = 0 \<and> \<not> force then Inr None
             else if m_num_columns ui = 0 then Inl DivideByZero
             else
               (let w = c_div (m_region_width ui) (m_num_columns ui);
                    entry_x = info_column entry * w
                in bindE (at (row_heights ui) (info_row entry + 1)) (\<lambda>h1.
                   bindE (at (row_heights ui) (info_row entry)) (\<lambda>h0.
                     let entry_h = h1 - h0 in
                     if x \<ge> entry_x \<and> x < entry_x + w \<and> y \<ge> info_y entry \<and> y < info_y entry + entry_h
                     then Inr (Some i) else Inr None))))))"

definition update_hovered_entry :: "Env \<Rightarrow> Menu \<Rightarrow> bool \<Rightarrow> error + Menu" where
  \<comment> \<open>\<^verbatim>\<open>UIMenu::update_hovered_entry(force)\<close>; the mouse cursor is outside the model.\<close>
  "update_hovered_entry env m force =
     bindE (is_visible_item_range m) (\<lambda>(vis_min, vis_max).
     bindE (find_first (hover_hit m force) [vis_min..<vis_max]) (\<lambda>found.
       case found of
         Some i \<Rightarrow>
           if force \<and> last_hovered m \<noteq> int i then set_hovered env m (int i) force
           else if hotkeys_count (items m ! i) \<noteq> 0
           then Inr (m\<lparr>ui_menu := (ui_menu m)\<lparr>m_hover_idx := int i\<rparr>\<rparr>)
           else Inr m
       | None \<Rightarrow>
           if MF_ARROWS_SELECT \<notin> flags m then
             (if force then set_hovered env m (-1) force
              else Inr (m\<lparr>ui_menu := (ui_menu m)\<lparr>m_hover_idx := -1\<rparr>\<rparr>))
           else Inr m))"

definition replay_scroll :: "Env \<Rightarrow> Menu \<Rightarrow> error + Menu" where
  \<comment> \<open>\<^verbatim>\<open>if (m_force_scroll >= 0) { m_menu->set_scroll(m_force_scroll); m_force_scroll = -1; }\<close>\<close>
  "replay_scroll env m =
     (if m_force_scroll (ui_menu m) \<ge> 0
      then bindE (set_scroll env m (m_force_scroll (ui_menu m))) (\<lambda>(r, m').
             Inr (m'\<lparr>ui_menu := (ui_menu m')\<lparr>m_force_scroll := -1\<rparr>\<rparr>))
      else Inr m)"

definition initial_hover_snap :: "Env \<Rightarrow> Menu \<Rightarrow> error + Menu" where
  \<comment> \<open>The block \<^verbatim>\<open>if (!m_initial_hover_snap) { ... }\<close>\<close>
  "initial_hover_snap env m =
     (if \<not> m_initial_hover_snap (ui_menu m)
      then bindE (if last_hovered m \<ge> 0
                  then drop_result (snap_in_page env m (last_hovered m))
                  else Inr m) (\<lambda>m'.
             Inr (m'\<lparr>ui_menu := (ui_menu m')\<lparr>m_initial_hover_snap := True\<rparr>\<rparr>))
      else Inr m)"

definition layout_and_hover :: "Env \<Rightarrow> Menu \<Rightarrow> error + Menu" where
  \<comment> \<open>The rest of \<^verbatim>\<open>_allocate_region\<close>: the layout and the hovered entry; \<^verbatim>\<open>pack_buffers\<close> only
      renders.\<close>
  "layout_and_hover env m =
     bindE (menu_do_layout m (m_region_width (ui_menu m)) (m_num_columns (ui_menu m))) (\<lambda>m3.
       if MF_ARROWS_SELECT \<notin> flags m3 \<or> last_hovered m3 < 0
       then update_hovered_entry env m3 False
       else Inr (m3\<lparr>ui_menu := (ui_menu m3)\<lparr>m_hover_idx := last_hovered m3\<rparr>\<rparr>))"

definition allocate_region :: "Env \<Rightarrow> Menu \<Rightarrow> error + Menu" where
  \<comment> \<open>\<^verbatim>\<open>UIMenu::_allocate_region()\<close>\<close>
  "allocate_region env m =
     bindE (replay_scroll env m) (\<lambda>m1.
     bindE (initial_hover_snap env m1) (\<lambda>m2. layout_and_hover env m2))"


subsection \<open>Invariants of the layout loop\<close>

text \<open>
  \<open>linv\<close> holds of the loop variables of \<^verbatim>\<open>do_layout\<close> between two entries; \<open>oinv C\<close> holds of
  the entries laid out so far.
\<close>

definition linv :: "layout_vars \<Rightarrow> bool" where
  "linv v = (-1 \<le> lv_column v \<and> 0 \<le> lv_row_height v \<and> sorted (lv_row_heights v)
     \<and> (\<forall>x \<in> set (lv_row_heights v). x \<le> lv_height v)
     \<and> (lv_row_heights v \<noteq> [] \<longrightarrow> last (lv_row_heights v) = lv_height v))"

definition oinv :: "int \<Rightarrow> MenuItemInfo list \<Rightarrow> layout_vars \<Rightarrow> bool" where
  "oinv C done v =
     ((\<forall>e \<in> set done. (\<not> info_heading e \<longrightarrow> 0 \<le> info_column e \<and> info_column e < C)
          \<and> (info_heading e \<longrightarrow> info_column e = 0)
          \<and> info_row e \<le> int (length (lv_row_heights v)) - 1)
      \<and> (\<forall>k < length done. info_heading (done ! k) \<longrightarrow>
            (\<forall>j < k. info_row (done ! j) < info_row (done ! k))))"

text \<open>\<open>hover_next\<close> is the index that one pass of the loop of \<^verbatim>\<open>cycle_hover\<close> looks at.\<close>

definition hover_next :: "Menu \<Rightarrow> bool \<Rightarrow> int \<Rightarrow> int" where
  "hover_next m reverse new_hover =
     (let nh1 = new_hover + (if reverse then -1 else 1);
          sz = int (length (items m));
          nh2 = (if is_set m MF_WRAP \<and> sz > 0 then c_mod (nh1 + sz) sz else nh1)
      in max 0 (min nh2 (sz - 1)))"


subsection \<open>Hotkey matches\<close>

text \<open>
  \<open>hotkey_here\<close> is \<^verbatim>\<open>is_hotkey(i, key)\<close> returning true; \<open>primary_here\<close> is the condition of the
  first loop of \<^verbatim>\<open>select_items\<close>,
  \<^verbatim>\<open>is_hotkey(index, key) && (items[index]->hotkeys[0] == key || is_set(MF_SINGLESELECT))\<close>;
  \<open>scan_index\<close> is the index \<^verbatim>\<open>(i + first_entry) % final\<close> that the loop looks at in its step
  \<open>i\<close>. \<open>hotkey_view\<close> collects what \<^verbatim>\<open>is_hotkey\<close> reads of a menu, and
  \<open>hotkey_selected m key qty k\<close> is the entry list after \<^verbatim>\<open>select(qty)\<close> on every Item-level
  entry below \<open>k\<close> that \<^verbatim>\<open>is_hotkey\<close> accepts.
\<close>

definition hotkey_here :: "Menu \<Rightarrow> int \<Rightarrow> nat \<Rightarrow> bool" where
  "hotkey_here m key i = (is_hotkey m (int i) key = Inr True)"

definition primary_here :: "Menu \<Rightarrow> int \<Rightarrow> nat \<Rightarrow> bool" where
  "primary_here m key i =
     (hotkey_here m key i \<and> (hd (hotkeys (items m ! i)) = key \<or> is_set m MF_SINGLESELECT))"

definition scan_index :: "Menu \<Rightarrow> int \<Rightarrow> nat \<Rightarrow> nat" where
  "scan_index m first_entry i = nat (c_mod (int i + first_entry) (int (length (items m))))"

definition hotkey_view :: "Menu \<Rightarrow> int list list \<times> int list \<times> int list \<times> Scroller \<times> MenuFlag set" where
  "hotkey_view m = (map hotkeys (items m), map info_row (item_info (ui_menu m)),
     row_heights (ui_menu m), scroller m, flags m)"

definition hotkey_selected :: "Menu \<Rightarrow> int \<Rightarrow> int \<Rightarrow> nat \<Rightarrow> MenuEntry list" where
  "hotkey_selected m key qty k =
     map (\<lambda>i. if i < k \<and> hotkey_here m key i \<and> level (items m ! i) = MEL_ITEM
              then select (items m ! i) qty else items m ! i) [0..<length (items m)]"


subsection \<open>Example values\<close>

text \<open>Values used in the closed examples below.\<close>

definition plain_item :: "int \<Rightarrow> int \<Rightarrow> MenuEntry" where
  "plain_item q s = \<lparr>entry_text = ''apple'', level = MEL_ITEM, hotkeys = [97], quantity = q,
     selected_qty = s, colour = 7, on_select = None, tiles = [], indent_no_hotkeys = False\<rparr>"

definition mono_font :: FontWrapper where
  \<comment> \<open>A fixed-width font: 20 pixels high, 10 pixels per character, no wrapping.\<close>
  "mono_font = \<lparr>char_height = 20, string_width = (\<lambda>s. 10 * length s), string_height = (\<lambda>s. 20),
     split = (\<lambda>s w. s)\<rparr>"

definition info_of :: "string \<Rightarrow> bool \<Rightarrow> MenuItemInfo" where
  \<comment> \<open>The record \<^verbatim>\<open>update_item\<close> leaves for an entry without tiles, before any layout.\<close>
  "info_of s h = blank_info\<lparr>info_text := s, info_heading := h\<rparr>"

definition ui_of :: "MenuItemInfo list \<Rightarrow> UIMenu" where
  \<comment> \<open>A widget as its constructor leaves it, with the given entry records.\<close>
  "ui_of infos = \<lparr>m_height = 0, m_hover_idx = -1, m_min_col_width = -1, m_force_scroll = -1,
     m_initial_hover_snap = False, m_scroll_context = 0, m_nat_column_width = 0, m_num_columns = 1,
     item_info = infos, row_heights = [], m_mouse_pressed = False, m_mouse_x = -1, m_mouse_y = -1,
     m_draw_tiles = False, m_font_entry = mono_font, m_region_x = 0, m_region_y = 0,
     m_region_width = 800, m_region_height = 0\<rparr>"

definition fruits_infos :: "MenuItemInfo list" where
  "fruits_infos = [info_of ''Fruits'' True, info_of '' a - apple'' False,
     info_of '' p - pear'' False, info_of '' k - kiwi'' False]"

text \<open>
  A menu as \<^verbatim>\<open>Menu::Menu\<close> constructs it, with the given flags, entries and viewport height;
  \<open>shown\<close> is its state after \<^verbatim>\<open>update_items\<close> and a first layout pass. \<open>env0\<close> is one
  environment: the key codes it gives to \<^verbatim>\<open>CK_REDRAW\<close>, \<^verbatim>\<open>CK_MOUSE_B1\<close> and \<^verbatim>\<open>CK_MOUSE_CLICK\<close>
  are arbitrary values outside the printable range, and no key but Escape is bound to a
  command.
\<close>

definition entry_of :: "string \<Rightarrow> MenuEntryLevel \<Rightarrow> int list \<Rightarrow> int \<Rightarrow> MenuEntry" where
  "entry_of s l hk q = \<lparr>entry_text = s, level = l, hotkeys = hk, quantity = q, selected_qty = 0,
     colour = 7, on_select = None, tiles = [], indent_no_hotkeys = False\<rparr>"

definition menu_of :: "Env \<Rightarrow> MenuFlag set \<Rightarrow> MenuEntry list \<Rightarrow> int \<Rightarrow> Menu" where
  "menu_of env fl its vph = \<lparr>flags = set_flags env fl, items = its, sel = [], select_filter = [], num = -1, lastch = 0,
     last_hovered = -1, menu_action = ACT_EXAMINE, action_cycle = CYCLE_NONE, f_keyfilter = None,
     on_single_selection = None, ui_menu = ui_of [],
     scroller = \<lparr>m_scroll = 0, region_height = vph\<rparr>\<rparr>"

definition env0 :: Env where
  "env0 = \<lparr>key_to_command = (\<lambda>k. if k = 27 then CMD_MENU_EXIT else CMD_NO_CMD), seen_hups = False,
     pattern_matches = (\<lambda>p t. False), prompt_line = [], prompt_lastch = 0,
     keycode_to_name = (\<lambda>k. [char_of k]), get_filter_text = entry_text, tile_menu_icons = False,
     menu_arrow_control = True,
     UI_SCROLLER_SHADE_SIZE = 12, CK_ENTER = 13, CK_REDRAW = -1001, CK_MOUSE_B1 = -1002,
     CK_MOUSE_CLICK = -1003, ESCAPE = 27\<rparr>"

definition shown :: "Env \<Rightarrow> Menu \<Rightarrow> error + Menu" where
  "shown env m = bindE (update_items env m) (\<lambda>m1.
     menu_do_layout m1 (m_region_width (ui_menu m1)) (m_num_columns (ui_menu m1)))"

definition fruits :: "MenuEntry list" where
  "fruits = [entry_of ''Fruits'' MEL_TITLE [] 0, entry_of ''apple'' MEL_ITEM [97] 1,
     entry_of ''pear'' MEL_ITEM [112] 1, entry_of ''kiwi'' MEL_ITEM [107] 1]"


text \<open>The menu after the framework has given its scroller the height \<open>h\<close>.\<close>

definition with_viewport :: "Menu \<Rightarrow> int \<Rightarrow> Menu" where
  "with_viewport m h = m\<lparr>scroller := (scroller m)\<lparr>region_height := h\<rparr>\<rparr>"
text \<open>
  A list in which two entries share the secondary hotkey \<^verbatim>\<open>'b'\<close> (98), and its multi-select
  menu scrolled to the top of its third entry.
\<close>

definition berries :: "MenuEntry list" where
  "berries = [entry_of ''Berries'' MEL_TITLE [] 0, entry_of ''acai'' MEL_ITEM [97, 98] 1,
     entry_of ''aronia'' MEL_ITEM [114, 98] 1, entry_of ''sloe'' MEL_ITEM [115] 1]"

definition berries_menu :: "error + Menu" where
  "berries_menu = bindE (shown env0 (menu_of env0 {MF_MULTISELECT} berries 600))
     (\<lambda>m0. Inr (scroller_set_scroll m0 53))"



section \<open>Layout\<close>

lemma c_mod_nonneg: "0 \<le> a \<Longrightarrow> 0 < b \<Longrightarrow> c_mod a b = a mod b"
  by (simp add: c_mod_def c_div_def sgn_if minus_mult_div_eq_mod)

lemma close_row_inv:
  assumes "linv v"
  shows "linv (close_row v)" "lv_row_heights (close_row v) = lv_row_heights v @ [lv_height (close_row v)]"
    "lv_column (close_row v) = lv_column v"
  using assms by (auto simp: linv_def close_row_def Let_def item_pad_def sorted_append)

lemma layout_entry_props:
  assumes C: "0 < C" and inv: "linv v" and st: "layout_entry font dt nw mw C i v e = (e', v')"
  shows "linv v'"
    and "info_heading e' = info_heading e"
    and "\<not> info_heading e \<Longrightarrow> 0 \<le> info_column e' \<and> info_column e' < C"
    and "info_heading e \<Longrightarrow> info_column e' = 0"
    and "info_row e' = int (length (lv_row_heights v')) - 1"
    and "length (lv_row_heights v) \<le> length (lv_row_heights v')"
    and "info_column e' = 0 \<Longrightarrow> length (lv_row_heights v') = Suc (length (lv_row_heights v))"
    and "info_y e' = lv_height v'"
proof -
  define column where "column = (if info_heading e then 0 else c_mod (lv_column v + 1) C)"
  define v1 where "v1 = open_row column v"
  have col: "0 \<le> column \<and> column < C"
    using C inv by (auto simp: column_def linv_def c_mod_nonneg)
  have v1: "linv v1" "lv_column v1 = lv_column v"
    using close_row_inv[OF inv] inv by (auto simp: v1_def linv_def open_row_def)
  have len1: "length (lv_row_heights v1) = (if column = 0 then Suc (length (lv_row_heights v)) else length (lv_row_heights v))"
    using close_row_inv(2)[OF inv] by (simp add: v1_def open_row_def)
  have ev: "e' = fst (layout_entry font dt nw mw C i v e)" "v' = snd (layout_entry font dt nw mw C i v e)"
    using st by simp_all
  have e': "info_heading e' = info_heading e" "info_column e' = column"
    "info_row e' = int (length (lv_row_heights v1)) - 1" "info_y e' = lv_height v1"
    unfolding ev v1_def column_def
    by (cases "info_heading e"; simp add: layout_entry_def Let_def)+
  have v': "lv_row_heights v' = lv_row_heights v1" "lv_height v' = lv_height v1"
    unfolding ev v1_def column_def
    by (cases "info_heading e"; simp add: layout_entry_def Let_def)+
  have hh: "0 \<le> heading_height font dt mw i e"
    by (auto simp: heading_height_def Let_def max_def)
  have rh': "0 \<le> lv_row_height v'"
    using v1(1) hh unfolding ev v1_def column_def linv_def
    by (cases "info_heading e"; simp add: layout_entry_def Let_def le_max_iff_disj)
  have c': "-1 \<le> lv_column v'"
    using col C unfolding ev column_def
    by (cases "info_heading e"; simp add: layout_entry_def Let_def)
  note v' = v' rh' c'
  show "linv v'" using v1(1) v' by (simp add: linv_def)
  show "info_heading e' = info_heading e" by (rule e')
  show "\<not> info_heading e \<Longrightarrow> 0 \<le> info_column e' \<and> info_column e' < C" using col e' by simp
  show "info_heading e \<Longrightarrow> info_column e' = 0" using e' by (simp add: column_def)
  show "info_row e' = int (length (lv_row_heights v')) - 1" using e' v' by simp
  show "length (lv_row_heights v) \<le> length (lv_row_heights v')" using len1 v' by simp
  show "info_column e' = 0 \<Longrightarrow> length (lv_row_heights v') = Suc (length (lv_row_heights v))"
    using len1 v' e' by simp
  show "info_y e' = lv_height v'" using e' v' by simp
qed


lemma oinv_step:
  assumes C: "0 < C" and inv: "linv v" and o: "oinv C done v"
    and st: "layout_entry font dt nw mw C i v e = (e', v')"
  shows "oinv C (done @ [e']) v'"
proof -
  note P = layout_entry_props[OF C inv st]
  have old: "\<forall>e \<in> set done. info_row e \<le> int (length (lv_row_heights v)) - 1"
    using o by (simp add: oinv_def)
  have a: "\<forall>e \<in> set (done @ [e']). (\<not> info_heading e \<longrightarrow> 0 \<le> info_column e \<and> info_column e < C)
          \<and> (info_heading e \<longrightarrow> info_column e = 0)
          \<and> info_row e \<le> int (length (lv_row_heights v')) - 1"
    using o P(2,3,4,5,6) by (auto simp: oinv_def)
  have b: "\<forall>k < length (done @ [e']). info_heading ((done @ [e']) ! k) \<longrightarrow>
            (\<forall>j < k. info_row ((done @ [e']) ! j) < info_row ((done @ [e']) ! k))"
  proof (intro allI impI)
    fix k j assume k: "k < length (done @ [e'])" and h: "info_heading ((done @ [e']) ! k)" and j: "j < k"
    show "info_row ((done @ [e']) ! j) < info_row ((done @ [e']) ! k)"
    proof (cases "k < length done")
      case True
      then show ?thesis using o h j by (simp add: oinv_def nth_append)
    next
      case False
      then have keq: "k = length done" using k by simp
      then have he: "info_heading e'" using h by simp
      then have "info_column e' = 0" using P(2,4) by simp
      then have len: "length (lv_row_heights v') = Suc (length (lv_row_heights v))" using P(7) by simp
      have "done ! j \<in> set done" using j keq by simp
      then have "info_row (done ! j) \<le> int (length (lv_row_heights v)) - 1" using old by blast
      then show ?thesis using keq j P(5) len by (simp add: nth_append)
    qed
  qed
  show ?thesis unfolding oinv_def using a b by blast
qed

lemma layout_loop_inv:
  assumes "0 < C" and "linv v" and "oinv C done v"
    and "layout_loop font dt nw mw C i v done es = (out, v')"
  shows "linv v' \<and> oinv C out v' \<and> map info_heading out = map info_heading done @ map info_heading es"
  using assms
proof (induction es arbitrary: i v "done")
  case Nil
  then show ?case by simp
next
  case (Cons e es)
  obtain e' v1 where st: "layout_entry font dt nw mw C i v e = (e', v1)"
    by (cases "layout_entry font dt nw mw C i v e")
  have rec: "layout_loop font dt nw mw C (Suc i) v1 (done @ [e']) es = (out, v')"
    using Cons.prems(4) st by simp
  have "linv v1" using layout_entry_props(1)[OF Cons.prems(1,2) st] .
  moreover have "oinv C (done @ [e']) v1" using oinv_step[OF Cons.prems(1,2,3) st] .
  ultimately have "linv v' \<and> oinv C out v' \<and> map info_heading out = map info_heading (done @ [e']) @ map info_heading es"
    using Cons.IH[OF Cons.prems(1) _ _ rec] by blast
  then show ?case using layout_entry_props(2)[OF Cons.prems(1,2) st] by simp
qed

text \<open>
  C1. For a column count \<open>C \<ge> 1\<close> and entry records for every entry of the menu,
  \<^verbatim>\<open>do_layout\<close> returns, and in the layout it computes every non-heading entry has a column
  in \<open>[0, C)\<close>; every heading entry is in column 0 of a row that no earlier entry is in;
  \<^verbatim>\<open>row_heights\<close> is non-decreasing; and its last element is \<^verbatim>\<open>m_height\<close>. (The spec makes a
  column count below 1 a violation of the caller's contract, and \<^verbatim>\<open>menu.cc\<close> passes 1 or 2.)
\<close>

theorem do_layout_sound:
  assumes C: "0 < C" and n: "n \<le> length (item_info ui)"
  shows "\<exists>ui'. do_layout n nw ui mw C = Inr ui'
     \<and> length (item_info ui') = length (item_info ui)
     \<and> (\<forall>k < n. info_heading (item_info ui' ! k) = info_heading (item_info ui ! k))
     \<and> (\<forall>k < n. \<not> info_heading (item_info ui' ! k) \<longrightarrow>
            0 \<le> info_column (item_info ui' ! k) \<and> info_column (item_info ui' ! k) < C)
     \<and> (\<forall>k < n. info_heading (item_info ui' ! k) \<longrightarrow> info_column (item_info ui' ! k) = 0
            \<and> (\<forall>j < k. info_row (item_info ui' ! j) < info_row (item_info ui' ! k)))
     \<and> sorted (row_heights ui') \<and> row_heights ui' \<noteq> []
     \<and> last (row_heights ui') = m_height ui'"
proof -
  define v0 where "v0 = \<lparr>lv_column = -1, lv_column_width = 0, lv_row_height = 0, lv_height = 0,
                   lv_scroll_context = m_scroll_context ui, lv_row_heights = []\<rparr>"
  obtain infos v where loop: "layout_loop (m_font_entry ui) (m_draw_tiles ui) nw mw C 0 v0 []
                   (take n (item_info ui)) = (infos, v)"
    by (cases "layout_loop (m_font_entry ui) (m_draw_tiles ui) nw mw C 0 v0 [] (take n (item_info ui))")
  have "linv v0" by (simp add: linv_def v0_def)
  moreover have "oinv C [] v0" by (simp add: oinv_def)
  ultimately have inv: "linv v" and o: "oinv C infos v"
    and hd: "map info_heading infos = map info_heading (take n (item_info ui))"
    using layout_loop_inv[OF C _ _ loop] by auto
  have len: "length infos = n"
    using arg_cong[OF hd, of length] n by simp
  define ui' where "ui' = ui\<lparr>item_info := infos @ drop n (item_info ui),
                            row_heights := lv_row_heights (close_row v),
                            m_scroll_context := lv_scroll_context (close_row v),
                            m_height := lv_height (close_row v),
                            m_nat_column_width :=
                              max (if m_min_col_width ui > 0 then m_min_col_width ui else 400)
                                (min (lv_column_width (close_row v) + 2 * item_pad) (c_div mw C))\<rparr>"
  have run: "do_layout n nw ui mw C = Inr ui'"
    using C n loop by (simp add: do_layout_def Let_def v0_def ui'_def)
  have nth: "\<And>k. k < n \<Longrightarrow> item_info ui' ! k = infos ! k"
    using len by (simp add: ui'_def nth_append)
  have c1: "length (item_info ui') = length (item_info ui)"
    using len n by (simp add: ui'_def)
  have c2: "\<forall>k < n. info_heading (item_info ui' ! k) = info_heading (item_info ui ! k)"
  proof (intro allI impI)
    fix k assume k: "k < n"
    have "map info_heading infos ! k = map info_heading (take n (item_info ui)) ! k" using hd by simp
    then show "info_heading (item_info ui' ! k) = info_heading (item_info ui ! k)"
      using k len n nth by simp
  qed
  have mem: "\<And>k. k < n \<Longrightarrow> infos ! k \<in> set infos" using len by simp
  have c3: "\<forall>k < n. \<not> info_heading (item_info ui' ! k) \<longrightarrow>
            0 \<le> info_column (item_info ui' ! k) \<and> info_column (item_info ui' ! k) < C"
    using o mem nth unfolding oinv_def by metis
  have c4: "\<forall>k < n. info_heading (item_info ui' ! k) \<longrightarrow> info_column (item_info ui' ! k) = 0
            \<and> (\<forall>j < k. info_row (item_info ui' ! j) < info_row (item_info ui' ! k))"
  proof (intro allI impI)
    fix k assume k: "k < n" and h: "info_heading (item_info ui' ! k)"
    have hk: "info_heading (infos ! k)" using h nth[OF k] by simp
    have "info_column (infos ! k) = 0" using o mem[OF k] hk unfolding oinv_def by blast
    moreover have "\<forall>j < k. info_row (infos ! j) < info_row (infos ! k)"
      using o hk k len unfolding oinv_def by blast
    ultimately show "info_column (item_info ui' ! k) = 0
            \<and> (\<forall>j < k. info_row (item_info ui' ! j) < info_row (item_info ui' ! k))"
      using nth k by simp
  qed
  have c5: "sorted (row_heights ui') \<and> row_heights ui' \<noteq> [] \<and> last (row_heights ui') = m_height ui'"
    using close_row_inv[OF inv] by (simp add: ui'_def linv_def)
  show ?thesis using run c1 c2 c3 c4 c5 by blast
qed

theorem do_layout_sound_witness:
  "\<exists>ui'. do_layout 4 False (ui_of fruits_infos) 800 2 = Inr ui'
     \<and> map info_column (item_info ui') = [0, 0, 1, 0]
     \<and> map info_row (item_info ui') = [0, 1, 1, 2]
     \<and> row_heights ui' = [0, 29, 53, 77]
     \<and> sorted (row_heights ui') \<and> last (row_heights ui') = m_height ui'"
proof -
  have h1: "(0::int) < 2" by simp
  have h2: "4 \<le> length (item_info (ui_of fruits_infos))"
    by (simp add: ui_of_def fruits_infos_def)
  have ev: "map_sum id (\<lambda>ui'. (map info_column (item_info ui'), map info_row (item_info ui'),
               row_heights ui'))
      (do_layout 4 False (ui_of fruits_infos) 800 2) = Inr ([0, 0, 1, 0], [0, 1, 1, 2], [0, 29, 53, 77])"
    by code_simp
  from do_layout_sound [OF h1 h2, of False 800]
  obtain ui' where run: "do_layout 4 False (ui_of fruits_infos) 800 2 = Inr ui'"
    and s: "sorted (row_heights ui')" and l: "last (row_heights ui') = m_height ui'"
    by blast
  from ev run have vals: "map info_column (item_info ui') = [0, 0, 1, 0]"
    "map info_row (item_info ui') = [0, 1, 1, 2]" "row_heights ui' = [0, 29, 53, 77]"
    by simp_all
  show ?thesis
    by (rule exI[of _ ui']) (use run s l vals in simp)
qed


section \<open>Entry selection\<close>

text \<open>
  C2 (as amended). \<^verbatim>\<open>MenuEntry::select(qty)\<close> tests its cases in this order: an entry with
  an action and quantity 0 gets \<open>selected_qty = 1\<close>; else \<open>qty = -2\<close> gives
  \<open>selected_qty = quantity\<close>; else an already selected entry gets \<open>selected_qty = 0\<close>; else,
  when the quantity is not 0, \<open>selected_qty\<close> becomes \<open>quantity\<close> for \<open>qty = -1\<close> and \<open>qty\<close>
  otherwise; and an unselected entry of quantity 0 without an action is left as it is.
  No other field of the entry changes.
\<close>

theorem select_cases:
  "selected_qty (select e qty) =
     (if on_select e \<noteq> None \<and> quantity e = 0 then 1
      else if qty = -2 then quantity e
      else if selected e then 0
      else if quantity e \<noteq> 0 then (if qty = -1 then quantity e else qty)
      else selected_qty e)
   \<and> select e qty = e\<lparr>selected_qty := selected_qty (select e qty)\<rparr>"
  by (simp add: select_def)

theorem select_cases_witness:
  "selected_qty (select (plain_item 5 0) 3) = 3
   \<and> selected_qty (select (plain_item 5 3) 3) = 0
   \<and> selected_qty (select (plain_item 0 0) 3) = 0
   \<and> select (plain_item 5 0) 3 = plain_item 5 3"
  using select_cases [of "plain_item 5 0" 3] select_cases [of "plain_item 5 3" 3]
    select_cases [of "plain_item 0 0" 3]
  by (simp add: plain_item_def selected_def select_def)

text \<open>
  The claim as written fails in its last case: an unselected entry of quantity 0 with no
  action is not selected, yet \<open>select 5\<close> does not set \<open>selected_qty\<close> to 5.
\<close>

theorem select_otherwise_counterexample:
  "\<not> (on_select (plain_item 0 0) \<noteq> None \<and> quantity (plain_item 0 0) = 0)
   \<and> (5::int) \<noteq> -2
   \<and> \<not> selected (plain_item 0 0)
   \<and> selected_qty (select (plain_item 0 0) 5) \<noteq> (if (5::int) = -1 then quantity (plain_item 0 0) else 5)"
  by (simp add: select_def selected_def plain_item_def)

text \<open>
  C9 (as amended). \<^verbatim>\<open>MenuEntry::select(qty)\<close> keeps \<open>0 \<le> selected_qty \<le> quantity\<close> when the
  entry satisfied it before, the requested \<open>qty\<close> is \<open>-2\<close>, \<open>-1\<close> or lies in \<open>0..quantity\<close>, and
  the entry is not an action entry of quantity 0. The function itself does not clamp:
  a larger \<open>qty\<close> is stored as it is.
\<close>

theorem select_keeps_range:
  assumes "0 \<le> selected_qty e" and "selected_qty e \<le> quantity e"
    and "qty = -2 \<or> qty = -1 \<or> (0 \<le> qty \<and> qty \<le> quantity e)"
    and "on_select e = None \<or> quantity e \<noteq> 0"
  shows "0 \<le> selected_qty (select e qty) \<and> selected_qty (select e qty) \<le> quantity e"
  using assms by (auto simp: select_def)

theorem select_keeps_range_witness:
  "0 \<le> selected_qty (select (plain_item 5 0) 3) \<and> selected_qty (select (plain_item 5 0) 3) \<le> quantity (plain_item 5 0)"
proof -
  have "0 \<le> selected_qty (plain_item 5 0)" "selected_qty (plain_item 5 0) \<le> quantity (plain_item 5 0)"
    "(3::int) = -2 \<or> (3::int) = -1 \<or> (0 \<le> (3::int) \<and> 3 \<le> quantity (plain_item 5 0))"
    "on_select (plain_item 5 0) = None \<or> quantity (plain_item 5 0) \<noteq> 0"
    by (simp_all add: plain_item_def)
  from select_keeps_range [OF this] show ?thesis .
qed

text \<open>
  The claim as written fails: a numeric prefix of 7 on an entry of quantity 5 leaves
  \<open>selected_qty = 7\<close>.
\<close>

theorem select_exceeds_quantity_counterexample:
  "selected_qty (select (plain_item 5 0) 7) = 7 \<and> quantity (select (plain_item 5 0) 7) = 5
   \<and> \<not> selected_qty (select (plain_item 5 0) 7) \<le> quantity (select (plain_item 5 0) 7)"
  by (simp add: select_def selected_def plain_item_def)


section \<open>Selection by index\<close>

lemma holds_afterD: "holds_after r P \<Longrightarrow> \<exists>x. r = Inr x \<and> P x"
  by (cases r) (simp_all add: holds_after_def)

lemma holds_afterI: "r = Inr x \<Longrightarrow> P x \<Longrightarrow> holds_after r P"
  by (simp add: holds_after_def)

text \<open>
  C10. For an index that points at an entry of level Title or None, \<^verbatim>\<open>select_index\<close> only
  evaluates \<^verbatim>\<open>get_first_visible\<close> and leaves the menu as it is, for every flag configuration
  and every \<open>qty\<close>: no entry's \<open>selected_qty\<close> changes.
\<close>

theorem select_index_title_none:
  assumes "0 \<le> index" and "index < int (length (items m))"
    and "level (items m ! nat index) = MEL_TITLE \<or> level (items m ! nat index) = MEL_NONE"
  shows "select_index env m index qty = bindE (get_first_visible m False) (\<lambda>first_vis. Inr m)
     \<and> (\<forall>m'. select_index env m index qty = Inr m' \<longrightarrow>
            map selected_qty (items m') = map selected_qty (items m))"
proof -
  have "at (items m) index = Inr (items m ! nat index)" using assms by (simp add: at_def)
  moreover have "index \<noteq> -1" using assms by simp
  ultimately have eq: "select_index env m index qty = bindE (get_first_visible m False) (\<lambda>first_vis. Inr m)"
    using assms(3) by (auto simp: select_index_def bindE_def Let_def split: sum.splits)
  then show ?thesis by (auto simp: bindE_def split: sum.splits)
qed

theorem select_index_title_none_witness:
  "holds_after (shown env0 (menu_of env0 {MF_MULTISELECT} fruits 600))
     (\<lambda>m0. level (items m0 ! 0) = MEL_TITLE \<and> select_index env0 m0 0 5 = Inr m0)"
proof -
  have "holds_after (shown env0 (menu_of env0 {MF_MULTISELECT} fruits 600))
     (\<lambda>m0. 0 < int (length (items m0)) \<and> level (items m0 ! nat 0) = MEL_TITLE
        \<and> get_first_visible m0 False = Inr 0)"
    by code_simp
  then obtain m0 where run: "shown env0 (menu_of env0 {MF_MULTISELECT} fruits 600) = Inr m0"
    and a: "0 < int (length (items m0))" and b: "level (items m0 ! nat 0) = MEL_TITLE"
    and c: "get_first_visible m0 False = Inr 0"
    by (auto dest: holds_afterD)
  have "select_index env0 m0 0 5 = Inr m0"
    using select_index_title_none [of 0 m0 env0 5] a b c by (simp add: bindE_def)
  then show ?thesis using run b by (simp add: holds_after_def)
qed

section \<open>Snapping an entry into the page\<close>

lemma bindE_Inr: "bindE r f = Inr y \<Longrightarrow> \<exists>x. r = Inr x \<and> f x = Inr y"
  by (cases r) (simp_all add: bindE_def)

lemma get_item_region_scroll_indep:
  "get_item_region (scroller_set_scroll m y) index = get_item_region m index"
  by (simp add: get_item_region_def scroller_set_scroll_def Let_def cong: if_cong)

lemma get_header_block_scroll_indep:
  "get_header_block (scroller_set_scroll m y) index = get_header_block m index"
  by (simp add: get_header_block_def scroller_set_scroll_def)

lemma region_scroll_indep:
  "region_with_headers (scroller_set_scroll m y) index = region_with_headers m index"
  by (simp add: region_with_headers_def get_item_region_scroll_indep get_header_block_scroll_indep
      cong: if_cong)

lemma int32_id: "- 2147483648 \<le> x \<Longrightarrow> x < 2147483648 \<Longrightarrow> int32 x = x"
  by (simp add: int32_def)

text \<open>
  C5 (as amended). \<^verbatim>\<open>snap_in_page(index)\<close> is idempotent when the region \<open>y1\<close> to \<open>y2\<close> of the
  entry, taken from the top of the headers right before it, is shorter than the viewport by
  more than the scroller's shade margin: \<open>y2 - y1 < viewport height - UI_SCROLLER_SHADE_SIZE / 2\<close>,
  with a positive margin, \<open>0 \<le> y1 \<le> y2\<close> and \<open>y1 + viewport height\<close> inside the range of
  \<^verbatim>\<open>int\<close>. Then, whatever the scroll offset before the first call (\<^verbatim>\<open>INT_MAX\<close> included), a
  second call in succession returns false and leaves the menu, and so the scroll offset,
  unchanged. With a viewport height of zero or an index out of range the first call already
  returns false and changes nothing, and so does the second.
\<close>

theorem snap_in_page_idempotent:
  assumes first: "snap_in_page env m index = Inr (r, m')"
  shows "(region_height (scroller m) = 0 \<or> index < 0 \<or> int (length (items m)) \<le> index \<longrightarrow>
            \<not> r \<and> m' = m \<and> snap_in_page env m' index = Inr (False, m'))
     \<and> (\<forall>y1 y2. region_with_headers m index = Inr (y1, y2)
            \<and> y2 - y1 < region_height (scroller m) - shade_half env \<and> 0 < shade_half env
            \<and> 0 \<le> y1 \<and> y1 \<le> y2 \<and> y1 + region_height (scroller m) \<le> INT_MAX \<longrightarrow>
            snap_in_page env m' index = Inr (False, m'))"
proof -
  let ?out = "region_height (scroller m) = 0 \<or> index < 0 \<or> int (length (items m)) \<le> index"
  have out: "\<not> r \<and> m' = m \<and> snap_in_page env m' index = Inr (False, m')" if ?out
  proof -
    have "snap_in_page env m index = Inr (False, m)"
      using that by (auto simp: snap_in_page_def Let_def)
    then show ?thesis using first by simp
  qed
  have inn: "snap_in_page env m' index = Inr (False, m')"
    if reg: "region_with_headers m index = Inr (y1, y2)"
      and fits: "y2 - y1 < region_height (scroller m) - shade_half env"
      and shade: "0 < shade_half env"
      and rng: "0 \<le> y1" "y1 \<le> y2" "y1 + region_height (scroller m) \<le> INT_MAX" for y1 y2
  proof (cases ?out)
    case True
    from out [OF True] show ?thesis by blast
  next
    case False
    let ?vph = "region_height (scroller m)"
    let ?vpy = "get_scroll m"
    have "int32 (y2 + shade_half env) = y2 + shade_half env"
      by (rule int32_id) (use fits shade rng in \<open>simp_all add: INT_MAX_def\<close>)
    then have w1: "int32 (y2 - ?vph + shade_half env + ?vph) = y2 + shade_half env"
      by (simp add: algebra_simps)
    have w2: "int32 (y1 - shade_half env + ?vph) = y1 - shade_half env + ?vph"
      by (rule int32_id) (use fits shade rng in \<open>simp_all add: INT_MAX_def\<close>)
    consider (a) "y2 \<ge> int32 (?vpy + ?vph)"
      | (b) "y2 < int32 (?vpy + ?vph)" "y1 < ?vpy"
      | (c) "y2 < int32 (?vpy + ?vph)" "y1 \<ge> ?vpy"
      by linarith
    then show ?thesis
    proof cases
      case a
      then have m': "m' = scroller_set_scroll m (y2 - ?vph + shade_half env)"
        using first False reg by (simp add: snap_in_page_def Let_def bindE_def)
      have sc: "get_scroll m' = y2 - ?vph + shade_half env" "region_height (scroller m') = ?vph"
        "length (items m') = length (items m)"
        by (simp_all add: m' scroller_set_scroll_def get_scroll_def)
      have reg': "region_with_headers m' index = Inr (y1, y2)"
        using reg by (simp add: m' region_scroll_indep)
      show ?thesis using False reg' fits shade sc w1
        by (simp add: snap_in_page_def Let_def bindE_def)
    next
      case b
      then have m': "m' = scroller_set_scroll m (y1 - shade_half env)"
        using first False reg by (simp add: snap_in_page_def Let_def bindE_def)
      have sc: "get_scroll m' = y1 - shade_half env" "region_height (scroller m') = ?vph"
        "length (items m') = length (items m)"
        by (simp_all add: m' scroller_set_scroll_def get_scroll_def)
      have reg': "region_with_headers m' index = Inr (y1, y2)"
        using reg by (simp add: m' region_scroll_indep)
      show ?thesis using False reg' fits shade sc w2
        by (simp add: snap_in_page_def Let_def bindE_def)
    next
      case c
      then have "snap_in_page env m index = Inr (False, m)"
        using False reg by (simp add: snap_in_page_def Let_def bindE_def)
      then show ?thesis using first by simp
    qed
  qed
  show ?thesis using out inn by blast
qed

theorem snap_in_page_idempotent_witness:
  "holds_after (shown env0 (menu_of env0 {MF_MULTISELECT} fruits 60))
     (\<lambda>m0. holds_after (snap_in_page env0 m0 3)
        (\<lambda>(r, m1). r \<and> get_scroll m1 = 47 \<and> snap_in_page env0 m1 3 = Inr (False, m1)))
   \<and> holds_after (shown env0 (menu_of env0 {MF_MULTISELECT} fruits 40))
     (\<lambda>m0. holds_after (snap_in_page env0 (scroller_set_scroll m0 INT_MAX) 3)
        (\<lambda>(r, m1). r \<and> get_scroll m1 = 67 \<and> snap_in_page env0 m1 3 = Inr (False, m1)))
   \<and> holds_after (shown env0 (menu_of env0 {MF_MULTISELECT} fruits 0))
     (\<lambda>m0. holds_after (snap_in_page env0 m0 3)
        (\<lambda>(r, m1). \<not> r \<and> get_scroll m1 = 0 \<and> snap_in_page env0 m1 3 = Inr (False, m1)))"
proof -
  have sh: "shade_half env0 = 6" by code_simp
  have a: "holds_after (snap_in_page env0 m 3)
        (\<lambda>(r, m1). r \<and> get_scroll m1 = v \<and> snap_in_page env0 m1 3 = Inr (False, m1))"
    if reg: "region_with_headers m 3 = Inr (77, 101)"
      and vph: "region_height (scroller m) = h" "30 < h" "h < 1000"
      and run: "holds_after (snap_in_page env0 m 3) (\<lambda>(r, m1). r \<and> get_scroll m1 = v)" for m v h
  proof -
    from holds_afterD [OF run] obtain p where p: "snap_in_page env0 m 3 = Inr p"
      and q: "(\<lambda>(r, m1). r \<and> get_scroll m1 = v) p" by blast
    obtain r m1 where pr: "p = (r, m1)" by (cases p)
    have first: "snap_in_page env0 m 3 = Inr (r, m1)" using p pr by simp
    have "snap_in_page env0 m1 3 = Inr (False, m1)"
      using snap_in_page_idempotent [OF first, THEN conjunct2, rule_format, of 77 101] reg vph sh
      by (simp add: INT_MAX_def)
    then have "(\<lambda>(r, m1). r \<and> get_scroll m1 = v \<and> snap_in_page env0 m1 3 = Inr (False, m1)) (r, m1)"
      using q pr by simp
    from holds_afterI [of _ _ "\<lambda>(r, m1). r \<and> get_scroll m1 = v
        \<and> snap_in_page env0 m1 3 = Inr (False, m1)", OF first this] show ?thesis .
  qed
  have e1: "holds_after (shown env0 (menu_of env0 {MF_MULTISELECT} fruits 60))
     (\<lambda>m0. region_with_headers m0 3 = Inr (77, 101) \<and> region_height (scroller m0) = 60
        \<and> holds_after (snap_in_page env0 m0 3) (\<lambda>(r, m1). r \<and> get_scroll m1 = 47))"
    by code_simp
  from holds_afterD [OF e1] obtain m0 where run1: "shown env0 (menu_of env0 {MF_MULTISELECT} fruits 60) = Inr m0"
    and f1: "region_with_headers m0 3 = Inr (77, 101)" "region_height (scroller m0) = 60"
      "holds_after (snap_in_page env0 m0 3) (\<lambda>(r, m1). r \<and> get_scroll m1 = 47)"
    by blast
  have c1: "holds_after (shown env0 (menu_of env0 {MF_MULTISELECT} fruits 60))
     (\<lambda>m0. holds_after (snap_in_page env0 m0 3)
        (\<lambda>(r, m1). r \<and> get_scroll m1 = 47 \<and> snap_in_page env0 m1 3 = Inr (False, m1)))"
    by (rule holds_afterI [OF run1], rule a [OF f1(1) f1(2) _ _ f1(3)]) simp_all
  have e2: "holds_after (shown env0 (menu_of env0 {MF_MULTISELECT} fruits 40))
     (\<lambda>m0. region_with_headers (scroller_set_scroll m0 INT_MAX) 3 = Inr (77, 101)
        \<and> region_height (scroller (scroller_set_scroll m0 INT_MAX)) = 40
        \<and> holds_after (snap_in_page env0 (scroller_set_scroll m0 INT_MAX) 3)
             (\<lambda>(r, m1). r \<and> get_scroll m1 = 67))"
    by code_simp
  from holds_afterD [OF e2] obtain m0' where run2: "shown env0 (menu_of env0 {MF_MULTISELECT} fruits 40) = Inr m0'"
    and f2: "region_with_headers (scroller_set_scroll m0' INT_MAX) 3 = Inr (77, 101)"
      "region_height (scroller (scroller_set_scroll m0' INT_MAX)) = 40"
      "holds_after (snap_in_page env0 (scroller_set_scroll m0' INT_MAX) 3)
             (\<lambda>(r, m1). r \<and> get_scroll m1 = 67)"
    by blast
  have c2: "holds_after (shown env0 (menu_of env0 {MF_MULTISELECT} fruits 40))
     (\<lambda>m0. holds_after (snap_in_page env0 (scroller_set_scroll m0 INT_MAX) 3)
        (\<lambda>(r, m1). r \<and> get_scroll m1 = 67 \<and> snap_in_page env0 m1 3 = Inr (False, m1)))"
    by (rule holds_afterI [OF run2], rule a [OF f2(1) f2(2) _ _ f2(3)]) simp_all
  have e3: "holds_after (shown env0 (menu_of env0 {MF_MULTISELECT} fruits 0))
     (\<lambda>m0. region_height (scroller m0) = 0
        \<and> holds_after (snap_in_page env0 m0 3) (\<lambda>(r, m1). get_scroll m1 = 0))"
    by code_simp
  from holds_afterD [OF e3] obtain m0'' where run3: "shown env0 (menu_of env0 {MF_MULTISELECT} fruits 0) = Inr m0''"
    and f3: "region_height (scroller m0'') = 0"
      "holds_after (snap_in_page env0 m0'' 3) (\<lambda>(r, m1). get_scroll m1 = 0)"
    by blast
  from holds_afterD [OF f3(2)] obtain p where p: "snap_in_page env0 m0'' 3 = Inr p"
    and q: "(\<lambda>(r, m1). get_scroll m1 = 0) p" by blast
  obtain r m1 where pr: "p = (r, m1)" by (cases p)
  have first3: "snap_in_page env0 m0'' 3 = Inr (r, m1)" using p pr by simp
  have "\<not> r \<and> m1 = m0'' \<and> snap_in_page env0 m1 3 = Inr (False, m1)"
    using snap_in_page_idempotent [OF first3, THEN conjunct1] f3(1) by blast
  then have "\<not> r \<and> snap_in_page env0 m1 3 = Inr (False, m1)" by blast
  then have "(\<lambda>(r, m1). \<not> r \<and> get_scroll m1 = 0 \<and> snap_in_page env0 m1 3 = Inr (False, m1)) (r, m1)"
    using q pr by simp
  from holds_afterI [of _ _ "\<lambda>(r, m1). \<not> r \<and> get_scroll m1 = 0
        \<and> snap_in_page env0 m1 3 = Inr (False, m1)", OF first3 this]
  have c3: "holds_after (shown env0 (menu_of env0 {MF_MULTISELECT} fruits 0))
     (\<lambda>m0. holds_after (snap_in_page env0 m0 3)
        (\<lambda>(r, m1). \<not> r \<and> get_scroll m1 = 0 \<and> snap_in_page env0 m1 3 = Inr (False, m1)))"
    by (rule holds_afterI [OF run3])
  show ?thesis using c1 c2 c3 by (intro conjI)
qed

text \<open>
  The claim as written fails when the entry is taller than the viewport allows: with rows of
  24 pixels and a viewport of 20, the first call scrolls to 63 and the second call scrolls
  again, to 47, and returns true.
\<close>

theorem snap_in_page_twice_counterexample:
  "holds_after (shown env0 (menu_of env0 {MF_MULTISELECT} fruits 20))
     (\<lambda>m0. holds_after (snap_in_page env0 m0 2) (\<lambda>(r1, m1).
        holds_after (snap_in_page env0 m1 2) (\<lambda>(r2, m2). r2 \<and> get_scroll m1 = 63 \<and> get_scroll m2 = 47)))"
  by code_simp

section \<open>A viewport of height zero\<close>

lemma snap_in_page_ui: "snap_in_page env m index = Inr (r, m') \<Longrightarrow> ui_menu m' = ui_menu m"
  by (auto simp: snap_in_page_def Let_def bindE_def scroller_set_scroll_def
      split: if_splits sum.splits prod.splits)

lemma set_hovered_snap_flag:
  "set_hovered env m index force = Inr m' \<Longrightarrow>
     m_initial_hover_snap (ui_menu m') = m_initial_hover_snap (ui_menu m)"
  by (auto simp: set_hovered_def Let_def dest!: bindE_Inr snap_in_page_ui
      split: if_splits prod.splits)

lemma update_hovered_entry_snap_flag:
  "update_hovered_entry env m force = Inr m' \<Longrightarrow>
     m_initial_hover_snap (ui_menu m') = m_initial_hover_snap (ui_menu m)"
  by (auto simp: update_hovered_entry_def dest!: bindE_Inr set_hovered_snap_flag
      split: if_splits option.splits)

lemma do_layout_snap_flag:
  "do_layout n nw ui mw nc = Inr ui' \<Longrightarrow> m_initial_hover_snap ui' = m_initial_hover_snap ui"
  by (auto simp: do_layout_def Let_def split: if_splits prod.splits)

lemma layout_and_hover_snap_flag:
  assumes "layout_and_hover env m = Inr m'"
  shows "m_initial_hover_snap (ui_menu m') = m_initial_hover_snap (ui_menu m)"
proof -
  from assms obtain m3 where
    l: "menu_do_layout m (m_region_width (ui_menu m)) (m_num_columns (ui_menu m)) = Inr m3"
    and h: "(if MF_ARROWS_SELECT \<notin> flags m3 \<or> last_hovered m3 < 0
       then update_hovered_entry env m3 False
       else Inr (m3\<lparr>ui_menu := (ui_menu m3)\<lparr>m_hover_idx := last_hovered m3\<rparr>\<rparr>)) = Inr m'"
    by (auto simp: layout_and_hover_def dest!: bindE_Inr)
  from l have "m_initial_hover_snap (ui_menu m3) = m_initial_hover_snap (ui_menu m)"
    by (auto simp: menu_do_layout_def dest!: bindE_Inr do_layout_snap_flag)
  moreover have "m_initial_hover_snap (ui_menu m') = m_initial_hover_snap (ui_menu m3)"
    using h by (auto dest!: update_hovered_entry_snap_flag split: if_splits)
  ultimately show ?thesis by simp
qed

lemma initial_hover_snap_sets:
  "initial_hover_snap env m = Inr m' \<Longrightarrow> m_initial_hover_snap (ui_menu m')"
  by (auto simp: initial_hover_snap_def dest!: bindE_Inr split: if_splits)

text \<open>
  C8 (as amended). With a viewport height of zero, \<^verbatim>\<open>set_scroll\<close>, \<^verbatim>\<open>item_visible\<close> and
  \<^verbatim>\<open>snap_in_page\<close> return false and leave the scroll offset as it is; \<^verbatim>\<open>set_scroll(index)\<close>
  stores the index in \<^verbatim>\<open>m_force_scroll\<close>. An \<^verbatim>\<open>_allocate_region\<close> that finds a stored index of
  at least 0 calls \<^verbatim>\<open>set_scroll\<close> with it, clears it and goes on as usual; with a viewport
  height other than zero and a valid index that call scrolls to the entry's region. A
  \<^verbatim>\<open>snap_in_page\<close> request made at height zero is not stored. What \<^verbatim>\<open>_allocate_region\<close> snaps
  by itself is the hovered entry: with no stored index, \<^verbatim>\<open>m_initial_hover_snap\<close> unset and
  \<^verbatim>\<open>last_hovered\<close> at least 0 it calls \<^verbatim>\<open>snap_in_page(last_hovered)\<close> and sets
  \<^verbatim>\<open>m_initial_hover_snap\<close>; with \<^verbatim>\<open>m_initial_hover_snap\<close> set it only lays out; and
  \<^verbatim>\<open>m_initial_hover_snap\<close> is set after every \<^verbatim>\<open>_allocate_region\<close>, so the hover is snapped
  once.
\<close>

theorem not_ready_and_replay:
  "(region_height (scroller m) = 0 \<longrightarrow>
      set_scroll env m index = Inr (False, m\<lparr>ui_menu := (ui_menu m)\<lparr>m_force_scroll := index\<rparr>\<rparr>)
      \<and> item_visible m index = Inr False
      \<and> snap_in_page env m index = Inr (False, m))
   \<and> (0 \<le> m_force_scroll (ui_menu m) \<longrightarrow>
      allocate_region env m =
        bindE (set_scroll env m (m_force_scroll (ui_menu m))) (\<lambda>(r, m').
          allocate_region env (m'\<lparr>ui_menu := (ui_menu m')\<lparr>m_force_scroll := -1\<rparr>\<rparr>)))
   \<and> (region_height (scroller m) \<noteq> 0 \<and> 0 \<le> index \<and> index < int (length (items m)) \<longrightarrow>
      set_scroll env m index =
        bindE (region_with_headers m index) (\<lambda>(y1, y2).
          Inr (get_scroll m \<noteq> y1, scroller_set_scroll m (y1 - shade_half env))))
   \<and> (m_force_scroll (ui_menu m) < 0 \<and> \<not> m_initial_hover_snap (ui_menu m) \<and> 0 \<le> last_hovered m \<longrightarrow>
      allocate_region env m =
        bindE (snap_in_page env m (last_hovered m)) (\<lambda>(r, m').
          layout_and_hover env (m'\<lparr>ui_menu := (ui_menu m')\<lparr>m_initial_hover_snap := True\<rparr>\<rparr>)))
   \<and> (m_force_scroll (ui_menu m) < 0 \<and> m_initial_hover_snap (ui_menu m) \<longrightarrow>
      allocate_region env m = layout_and_hover env m)
   \<and> (\<forall>m'. allocate_region env m = Inr m' \<longrightarrow> m_initial_hover_snap (ui_menu m'))"
proof (intro conjI impI allI)
  assume "region_height (scroller m) = 0"
  then show "set_scroll env m index = Inr (False, m\<lparr>ui_menu := (ui_menu m)\<lparr>m_force_scroll := index\<rparr>\<rparr>)"
    "item_visible m index = Inr False" "snap_in_page env m index = Inr (False, m)"
    by (simp_all add: set_scroll_def item_visible_def snap_in_page_def)
next
  assume f: "0 \<le> m_force_scroll (ui_menu m)"
  show "allocate_region env m =
        bindE (set_scroll env m (m_force_scroll (ui_menu m))) (\<lambda>(r, m').
          allocate_region env (m'\<lparr>ui_menu := (ui_menu m')\<lparr>m_force_scroll := -1\<rparr>\<rparr>))"
  proof (cases "set_scroll env m (m_force_scroll (ui_menu m))")
    case (Inl e)
    then show ?thesis using f by (simp add: allocate_region_def replay_scroll_def bindE_def)
  next
    case (Inr p)
    obtain r m' where p: "p = (r, m')" by (cases p)
    define m1 where "m1 = m'\<lparr>ui_menu := (ui_menu m')\<lparr>m_force_scroll := -1\<rparr>\<rparr>"
    have "replay_scroll env m1 = Inr m1" by (simp add: replay_scroll_def m1_def)
    then have r1: "allocate_region env m1 =
        bindE (initial_hover_snap env m1) (\<lambda>m2. layout_and_hover env m2)"
      by (simp add: allocate_region_def bindE_def)
    have "replay_scroll env m = Inr m1"
      using f Inr p by (simp add: replay_scroll_def bindE_def m1_def)
    then have "allocate_region env m =
        bindE (initial_hover_snap env m1) (\<lambda>m2. layout_and_hover env m2)"
      by (simp add: allocate_region_def bindE_def)
    then show ?thesis using Inr p r1 by (simp add: bindE_def m1_def)
  qed
next
  assume "region_height (scroller m) \<noteq> 0 \<and> 0 \<le> index \<and> index < int (length (items m))"
  then show "set_scroll env m index =
        bindE (region_with_headers m index) (\<lambda>(y1, y2).
          Inr (get_scroll m \<noteq> y1, scroller_set_scroll m (y1 - shade_half env)))"
    by (simp add: set_scroll_def Let_def)
next
  assume h: "m_force_scroll (ui_menu m) < 0 \<and> \<not> m_initial_hover_snap (ui_menu m) \<and> 0 \<le> last_hovered m"
  show "allocate_region env m =
        bindE (snap_in_page env m (last_hovered m)) (\<lambda>(r, m').
          layout_and_hover env (m'\<lparr>ui_menu := (ui_menu m')\<lparr>m_initial_hover_snap := True\<rparr>\<rparr>))"
  proof (cases "snap_in_page env m (last_hovered m)")
    case (Inl e)
    then show ?thesis using h
      by (simp add: allocate_region_def replay_scroll_def initial_hover_snap_def drop_result_def
          bindE_def)
  next
    case (Inr p)
    obtain r m' where p: "p = (r, m')" by (cases p)
    show ?thesis using h Inr p
      by (simp add: allocate_region_def replay_scroll_def initial_hover_snap_def drop_result_def
          bindE_def)
  qed
next
  assume "m_force_scroll (ui_menu m) < 0 \<and> m_initial_hover_snap (ui_menu m)"
  then show "allocate_region env m = layout_and_hover env m"
    by (simp add: allocate_region_def replay_scroll_def initial_hover_snap_def bindE_def)
next
  fix m' assume "allocate_region env m = Inr m'"
  then obtain m1 m2 where "replay_scroll env m = Inr m1" and s: "initial_hover_snap env m1 = Inr m2"
    and l: "layout_and_hover env m2 = Inr m'"
    by (auto simp: allocate_region_def dest!: bindE_Inr)
  from initial_hover_snap_sets [OF s] layout_and_hover_snap_flag [OF l]
  show "m_initial_hover_snap (ui_menu m')" by simp
qed

theorem not_ready_and_replay_witness:
  "holds_after (shown env0 (menu_of env0 {MF_MULTISELECT} fruits 0))
     (\<lambda>m0. item_visible m0 3 = Inr False \<and> snap_in_page env0 m0 3 = Inr (False, m0)
        \<and> holds_after (set_scroll env0 m0 3) (\<lambda>(r, m1). \<not> r \<and> get_scroll m1 = 0
             \<and> m_force_scroll (ui_menu m1) = 3
             \<and> allocate_region env0 (with_viewport m1 30) =
                 bindE (set_scroll env0 (with_viewport m1 30) 3) (\<lambda>(r, m').
                   allocate_region env0 (m'\<lparr>ui_menu := (ui_menu m')\<lparr>m_force_scroll := -1\<rparr>\<rparr>))
             \<and> holds_after (allocate_region env0 (with_viewport m1 30)) (\<lambda>m2.
                  get_scroll m2 = 71 \<and> m_force_scroll (ui_menu m2) = -1
                  \<and> in_page m2 3 False = Inr True)))
   \<and> holds_after (shown env0 (menu_of env0 {MF_MULTISELECT, MF_ARROWS_SELECT} fruits 0))
     (\<lambda>m0. holds_after (set_hovered env0 m0 3 False) (\<lambda>m1. get_scroll m1 = 0 \<and> last_hovered m1 = 3
        \<and> allocate_region env0 (with_viewport m1 30) =
            bindE (snap_in_page env0 (with_viewport m1 30) 3) (\<lambda>(r, m').
              layout_and_hover env0 (m'\<lparr>ui_menu := (ui_menu m')\<lparr>m_initial_hover_snap := True\<rparr>\<rparr>))
        \<and> holds_after (allocate_region env0 (with_viewport m1 30)) (\<lambda>m2.
             get_scroll m2 = 77 \<and> m_initial_hover_snap (ui_menu m2)
             \<and> allocate_region env0 (scroller_set_scroll m2 0) =
                 layout_and_hover env0 (scroller_set_scroll m2 0)
             \<and> holds_after (allocate_region env0 (scroller_set_scroll m2 0))
                 (\<lambda>m3. get_scroll m3 = 0))))"
proof -
  have w1: "holds_after (shown env0 (menu_of env0 {MF_MULTISELECT} fruits 0))
     (\<lambda>m0. item_visible m0 3 = Inr False \<and> snap_in_page env0 m0 3 = Inr (False, m0)
        \<and> holds_after (set_scroll env0 m0 3) (\<lambda>(r, m1). \<not> r \<and> get_scroll m1 = 0
             \<and> m_force_scroll (ui_menu m1) = 3
             \<and> allocate_region env0 (with_viewport m1 30) =
                 bindE (set_scroll env0 (with_viewport m1 30) 3) (\<lambda>(r, m').
                   allocate_region env0 (m'\<lparr>ui_menu := (ui_menu m')\<lparr>m_force_scroll := -1\<rparr>\<rparr>))
             \<and> holds_after (allocate_region env0 (with_viewport m1 30)) (\<lambda>m2.
                  get_scroll m2 = 71 \<and> m_force_scroll (ui_menu m2) = -1
                  \<and> in_page m2 3 False = Inr True)))"
  proof -
    have "holds_after (shown env0 (menu_of env0 {MF_MULTISELECT} fruits 0))
       (\<lambda>m0. region_height (scroller m0) = 0
          \<and> holds_after (set_scroll env0 m0 3) (\<lambda>(r, m1). \<not> r \<and> get_scroll m1 = 0
               \<and> m_force_scroll (ui_menu m1) = 3
               \<and> m_force_scroll (ui_menu (with_viewport m1 30)) = 3
               \<and> holds_after (allocate_region env0 (with_viewport m1 30)) (\<lambda>m2.
                    get_scroll m2 = 71 \<and> m_force_scroll (ui_menu m2) = -1
                    \<and> in_page m2 3 False = Inr True)))"
      by code_simp
    from holds_afterD [OF this]
    obtain m0 where run: "shown env0 (menu_of env0 {MF_MULTISELECT} fruits 0) = Inr m0"
      and vph: "region_height (scroller m0) = 0"
      and h2: "holds_after (set_scroll env0 m0 3) (\<lambda>(r, m1). \<not> r \<and> get_scroll m1 = 0
               \<and> m_force_scroll (ui_menu m1) = 3
               \<and> m_force_scroll (ui_menu (with_viewport m1 30)) = 3
               \<and> holds_after (allocate_region env0 (with_viewport m1 30)) (\<lambda>m2.
                    get_scroll m2 = 71 \<and> m_force_scroll (ui_menu m2) = -1
                    \<and> in_page m2 3 False = Inr True))"
      by blast
    from holds_afterD [OF h2]
    obtain p where ss': "set_scroll env0 m0 3 = Inr p"
      and h3: "(\<lambda>(r, m1). \<not> r \<and> get_scroll m1 = 0
               \<and> m_force_scroll (ui_menu m1) = 3
               \<and> m_force_scroll (ui_menu (with_viewport m1 30)) = 3
               \<and> holds_after (allocate_region env0 (with_viewport m1 30)) (\<lambda>m2.
                    get_scroll m2 = 71 \<and> m_force_scroll (ui_menu m2) = -1
                    \<and> in_page m2 3 False = Inr True)) p"
      by blast
    obtain r m1 where p: "p = (r, m1)" by (cases p)
    have ss: "set_scroll env0 m0 3 = Inr (r, m1)" using ss' p by simp
    have r: "\<not> r" and sc: "get_scroll m1 = 0" and fs: "m_force_scroll (ui_menu m1) = 3"
      and fs': "m_force_scroll (ui_menu (with_viewport m1 30)) = 3"
      and al: "holds_after (allocate_region env0 (with_viewport m1 30)) (\<lambda>m2.
                    get_scroll m2 = 71 \<and> m_force_scroll (ui_menu m2) = -1
                    \<and> in_page m2 3 False = Inr True)"
      using h3 p by simp_all
    have a: "item_visible m0 3 = Inr False" "snap_in_page env0 m0 3 = Inr (False, m0)"
      using not_ready_and_replay [of m0 env0 3] vph by simp_all
    have b: "allocate_region env0 (with_viewport m1 30) =
                   bindE (set_scroll env0 (with_viewport m1 30) 3) (\<lambda>(r, m').
                     allocate_region env0 (m'\<lparr>ui_menu := (ui_menu m')\<lparr>m_force_scroll := -1\<rparr>\<rparr>))"
      using not_ready_and_replay [of "with_viewport m1 30" env0 3] fs' by simp
    have inner: "(\<lambda>(r, m1). \<not> r \<and> get_scroll m1 = 0
               \<and> m_force_scroll (ui_menu m1) = 3
               \<and> allocate_region env0 (with_viewport m1 30) =
                   bindE (set_scroll env0 (with_viewport m1 30) 3) (\<lambda>(r, m').
                     allocate_region env0 (m'\<lparr>ui_menu := (ui_menu m')\<lparr>m_force_scroll := -1\<rparr>\<rparr>))
               \<and> holds_after (allocate_region env0 (with_viewport m1 30)) (\<lambda>m2.
                    get_scroll m2 = 71 \<and> m_force_scroll (ui_menu m2) = -1
                    \<and> in_page m2 3 False = Inr True)) (r, m1)"
      using r sc fs b al by simp

    show ?thesis
      by (rule holds_afterI [OF run], intro conjI a, rule holds_afterI [OF ss], rule inner)
  qed
  have w2: "holds_after (shown env0 (menu_of env0 {MF_MULTISELECT, MF_ARROWS_SELECT} fruits 0))
     (\<lambda>m0. holds_after (set_hovered env0 m0 3 False) (\<lambda>m1. get_scroll m1 = 0 \<and> last_hovered m1 = 3
        \<and> allocate_region env0 (with_viewport m1 30) =
            bindE (snap_in_page env0 (with_viewport m1 30) 3) (\<lambda>(r, m').
              layout_and_hover env0 (m'\<lparr>ui_menu := (ui_menu m')\<lparr>m_initial_hover_snap := True\<rparr>\<rparr>))
        \<and> holds_after (allocate_region env0 (with_viewport m1 30)) (\<lambda>m2.
             get_scroll m2 = 77 \<and> m_initial_hover_snap (ui_menu m2)
             \<and> allocate_region env0 (scroller_set_scroll m2 0) =
                 layout_and_hover env0 (scroller_set_scroll m2 0)
             \<and> holds_after (allocate_region env0 (scroller_set_scroll m2 0))
                 (\<lambda>m3. get_scroll m3 = 0))))"
  proof -
    have "holds_after (shown env0 (menu_of env0 {MF_MULTISELECT, MF_ARROWS_SELECT} fruits 0))
     (\<lambda>m0. holds_after (set_hovered env0 m0 3 False) (\<lambda>m1. get_scroll m1 = 0 \<and> last_hovered m1 = 3
        \<and> m_force_scroll (ui_menu (with_viewport m1 30)) < 0
        \<and> \<not> m_initial_hover_snap (ui_menu (with_viewport m1 30))
        \<and> last_hovered (with_viewport m1 30) = 3
        \<and> holds_after (allocate_region env0 (with_viewport m1 30)) (\<lambda>m2.
             get_scroll m2 = 77 \<and> m_force_scroll (ui_menu (scroller_set_scroll m2 0)) < 0
             \<and> holds_after (allocate_region env0 (scroller_set_scroll m2 0))
                 (\<lambda>m3. get_scroll m3 = 0))))"
      by code_simp
    from holds_afterD [OF this]
    obtain m0 where run: "shown env0 (menu_of env0 {MF_MULTISELECT, MF_ARROWS_SELECT} fruits 0) = Inr m0"
      and h1: "holds_after (set_hovered env0 m0 3 False) (\<lambda>m1. get_scroll m1 = 0 \<and> last_hovered m1 = 3
        \<and> m_force_scroll (ui_menu (with_viewport m1 30)) < 0
        \<and> \<not> m_initial_hover_snap (ui_menu (with_viewport m1 30))
        \<and> last_hovered (with_viewport m1 30) = 3
        \<and> holds_after (allocate_region env0 (with_viewport m1 30)) (\<lambda>m2.
             get_scroll m2 = 77 \<and> m_force_scroll (ui_menu (scroller_set_scroll m2 0)) < 0
             \<and> holds_after (allocate_region env0 (scroller_set_scroll m2 0))
                 (\<lambda>m3. get_scroll m3 = 0)))"
      by blast
    from holds_afterD [OF h1]
    obtain m1 where sh: "set_hovered env0 m0 3 False = Inr m1"
      and sc1: "get_scroll m1 = 0" and lh1: "last_hovered m1 = 3"
      and fs: "m_force_scroll (ui_menu (with_viewport m1 30)) < 0"
      and ns: "\<not> m_initial_hover_snap (ui_menu (with_viewport m1 30))"
      and lh: "last_hovered (with_viewport m1 30) = 3"
      and h2: "holds_after (allocate_region env0 (with_viewport m1 30)) (\<lambda>m2.
             get_scroll m2 = 77 \<and> m_force_scroll (ui_menu (scroller_set_scroll m2 0)) < 0
             \<and> holds_after (allocate_region env0 (scroller_set_scroll m2 0))
                 (\<lambda>m3. get_scroll m3 = 0))"
      by blast
    from holds_afterD [OF h2]
    obtain m2 where al: "allocate_region env0 (with_viewport m1 30) = Inr m2"
      and sc2: "get_scroll m2 = 77"
      and fs2: "m_force_scroll (ui_menu (scroller_set_scroll m2 0)) < 0"
      and h3: "holds_after (allocate_region env0 (scroller_set_scroll m2 0)) (\<lambda>m3. get_scroll m3 = 0)"
      by blast
    have d: "allocate_region env0 (with_viewport m1 30) =
            bindE (snap_in_page env0 (with_viewport m1 30) 3) (\<lambda>(r, m').
              layout_and_hover env0 (m'\<lparr>ui_menu := (ui_menu m')\<lparr>m_initial_hover_snap := True\<rparr>\<rparr>))"
      using not_ready_and_replay [of "with_viewport m1 30" env0 0] fs ns lh by simp
    have f: "m_initial_hover_snap (ui_menu m2)"
      using not_ready_and_replay [of "with_viewport m1 30" env0 0] al by blast
    then have f': "m_initial_hover_snap (ui_menu (scroller_set_scroll m2 0))"
      by (simp add: scroller_set_scroll_def)
    have e: "allocate_region env0 (scroller_set_scroll m2 0) =
                 layout_and_hover env0 (scroller_set_scroll m2 0)"
      using not_ready_and_replay [of "scroller_set_scroll m2 0" env0 0] fs2 f' by blast
    have i2: "(\<lambda>m2. get_scroll m2 = 77 \<and> m_initial_hover_snap (ui_menu m2)
             \<and> allocate_region env0 (scroller_set_scroll m2 0) =
                 layout_and_hover env0 (scroller_set_scroll m2 0)
             \<and> holds_after (allocate_region env0 (scroller_set_scroll m2 0))
                 (\<lambda>m3. get_scroll m3 = 0)) m2"
      using sc2 f e h3 by simp
    have i1: "(\<lambda>m1. get_scroll m1 = 0 \<and> last_hovered m1 = 3
        \<and> allocate_region env0 (with_viewport m1 30) =
            bindE (snap_in_page env0 (with_viewport m1 30) 3) (\<lambda>(r, m').
              layout_and_hover env0 (m'\<lparr>ui_menu := (ui_menu m')\<lparr>m_initial_hover_snap := True\<rparr>\<rparr>))
        \<and> holds_after (allocate_region env0 (with_viewport m1 30)) (\<lambda>m2.
             get_scroll m2 = 77 \<and> m_initial_hover_snap (ui_menu m2)
             \<and> allocate_region env0 (scroller_set_scroll m2 0) =
                 layout_and_hover env0 (scroller_set_scroll m2 0)
             \<and> holds_after (allocate_region env0 (scroller_set_scroll m2 0))
                 (\<lambda>m3. get_scroll m3 = 0))) m1"
      using sc1 lh1 d holds_afterI [of _ _ "\<lambda>m2. get_scroll m2 = 77 \<and> m_initial_hover_snap (ui_menu m2)
             \<and> allocate_region env0 (scroller_set_scroll m2 0) =
                 layout_and_hover env0 (scroller_set_scroll m2 0)
             \<and> holds_after (allocate_region env0 (scroller_set_scroll m2 0))
                 (\<lambda>m3. get_scroll m3 = 0)", OF al i2]
      by simp
    show ?thesis
      by (rule holds_afterI [OF run], rule holds_afterI [OF sh], rule i1)
  qed
  show ?thesis using w1 w2 by (intro conjI)
qed

text \<open>
  The claim as written fails for a snap request: \<^verbatim>\<open>snap_in_page(3)\<close> at viewport height 0
  returns false and stores nothing, so when the viewport height becomes 30 the next
  \<^verbatim>\<open>_allocate_region\<close> leaves the scroll offset at 0 and entry 3 outside the page. It also
  fails for the operations that do not test the height: at viewport height 0
  \<^verbatim>\<open>line_down\<close> returns true and scrolls from 0 to 29.
\<close>

theorem snap_request_lost_counterexample:
  "holds_after (shown env0 (menu_of env0 {MF_MULTISELECT} fruits 0))
     (\<lambda>m0. holds_after (snap_in_page env0 m0 3) (\<lambda>(r, m1). \<not> r \<and> get_scroll m1 = 0
        \<and> m_force_scroll (ui_menu m1) = -1 \<and> last_hovered m1 = -1
        \<and> holds_after (allocate_region env0 (with_viewport m1 30)) (\<lambda>m2.
             get_scroll m2 = 0 \<and> in_page m2 3 False = Inr False)))
   \<and> holds_after (shown env0 (menu_of env0 {MF_MULTISELECT} fruits 0))
     (\<lambda>m0. region_height (scroller m0) = 0 \<and> get_scroll m0 = 0
        \<and> holds_after (line_down m0) (\<lambda>(r, m1). r \<and> get_scroll m1 = 29))"
  by code_simp

section \<open>Hover cycling\<close>

lemma hover_scan_unfold:
  "hover_scan m reverse max_items items_tried new_hover =
     (if items_tried < max_items then
        (case at (items m) (hover_next m reverse new_hover) of
           Inl e \<Rightarrow> Inl e
         | Inr me \<Rightarrow>
             if level me = MEL_ITEM then Inr (Some (hover_next m reverse new_hover))
             else hover_scan m reverse max_items (items_tried + 1) (hover_next m reverse new_hover))
      else Inr None)"
  by (subst hover_scan.simps, unfold hover_next_def Let_def, rule refl)

lemma hover_next_range:
  "at (items m) (hover_next m rv nh) = Inr me \<Longrightarrow>
     0 \<le> hover_next m rv nh \<and> hover_next m rv nh < int (length (items m))
     \<and> me = items m ! nat (hover_next m rv nh)"
  by (auto simp: at_def split: if_splits)

lemma hover_scan_Some:
  "hover_scan m rv mx t nh = Inr (Some h) \<Longrightarrow>
     0 \<le> h \<and> h < int (length (items m)) \<and> level (items m ! nat h) = MEL_ITEM \<and> t < mx"
proof (induction "nat (mx - t)" arbitrary: t nh)
  case 0
  then show ?case using hover_scan_unfold[of m rv mx t nh] by simp
next
  case (Suc k)
  let ?n = "hover_next m rv nh"
  note eq = hover_scan_unfold[of m rv mx t nh]
  have lt: "t < mx" using Suc.hyps(2) by simp
  obtain me where me: "at (items m) ?n = Inr me"
    using Suc.prems lt eq by (cases "at (items m) ?n") simp_all
  note rng = hover_next_range[OF me]
  show ?case
  proof (cases "level me = MEL_ITEM")
    case True
    then have "h = ?n" using Suc.prems lt me eq by simp
    then show ?thesis using rng True lt by simp
  next
    case False
    then have rec: "hover_scan m rv mx (t + 1) ?n = Inr (Some h)"
      using Suc.prems lt me eq by simp
    have "k = nat (mx - (t + 1))" using Suc.hyps(2) by simp
    from Suc.hyps(1)[OF this rec] show ?thesis by simp
  qed
qed

lemma hover_scan_forward:
  assumes nw: "\<not> is_set m MF_WRAP"
  shows "hover_scan m False mx t nh = Inr (Some h) \<Longrightarrow>
     nh < h \<or> (h = int (length (items m)) - 1 \<and> h \<le> nh)"
proof (induction "nat (mx - t)" arbitrary: t nh)
  case 0
  then show ?case using hover_scan_unfold[of m False mx t nh] by simp
next
  case (Suc k)
  let ?n = "hover_next m False nh"
  note eq = hover_scan_unfold[of m False mx t nh]
  have lt: "t < mx" using Suc.hyps(2) by simp
  obtain me where me: "at (items m) ?n = Inr me"
    using Suc.prems lt eq by (cases "at (items m) ?n") simp_all
  note rng = hover_next_range[OF me]
  have n: "?n = max 0 (min (nh + 1) (int (length (items m)) - 1))"
    using nw by (simp add: hover_next_def Let_def)
  show ?case
  proof (cases "level me = MEL_ITEM")
    case True
    then have "h = ?n" using Suc.prems lt me eq by simp
    then show ?thesis using rng n by linarith
  next
    case False
    then have rec: "hover_scan m False mx (t + 1) ?n = Inr (Some h)"
      using Suc.prems lt me eq by simp
    have "k = nat (mx - (t + 1))" using Suc.hyps(2) by simp
    from Suc.hyps(1)[OF this rec]
    have ih: "?n < h \<or> (h = int (length (items m)) - 1 \<and> h \<le> ?n)" .
    have hb: "h < int (length (items m))" using hover_scan_Some[OF rec] by simp
    show ?thesis using ih hb rng n by linarith
  qed
qed

lemma hover_scan_reverse:
  assumes nw: "\<not> is_set m MF_WRAP"
  shows "hover_scan m True mx t nh = Inr (Some h) \<Longrightarrow> h < nh \<or> (h = 0 \<and> nh \<le> 0)"
proof (induction "nat (mx - t)" arbitrary: t nh)
  case 0
  then show ?case using hover_scan_unfold[of m True mx t nh] by simp
next
  case (Suc k)
  let ?n = "hover_next m True nh"
  note eq = hover_scan_unfold[of m True mx t nh]
  have lt: "t < mx" using Suc.hyps(2) by simp
  obtain me where me: "at (items m) ?n = Inr me"
    using Suc.prems lt eq by (cases "at (items m) ?n") simp_all
  note rng = hover_next_range[OF me]
  have n: "?n = max 0 (min (nh - 1) (int (length (items m)) - 1))"
    using nw by (simp add: hover_next_def Let_def)
  show ?case
  proof (cases "level me = MEL_ITEM")
    case True
    then have "h = ?n" using Suc.prems lt me eq by simp
    then show ?thesis using rng n by linarith
  next
    case False
    then have rec: "hover_scan m True mx (t + 1) ?n = Inr (Some h)"
      using Suc.prems lt me eq by simp
    have "k = nat (mx - (t + 1))" using Suc.hyps(2) by simp
    from Suc.hyps(1)[OF this rec]
    have ih: "h < ?n \<or> (h = 0 \<and> ?n \<le> 0)" .
    have hb: "0 \<le> h" using hover_scan_Some[OF rec] by simp
    show ?thesis using ih hb rng n by linarith
  qed
qed

lemma snap_in_page_frame:
  "snap_in_page env m index = Inr (r, m') \<Longrightarrow>
     items m' = items m \<and> last_hovered m' = last_hovered m \<and> flags m' = flags m"
  by (auto simp: snap_in_page_def Let_def bindE_def scroller_set_scroll_def
      split: if_splits sum.splits prod.splits)

lemma set_hovered_arrows:
  assumes "is_set m MF_ARROWS_SELECT" and "set_hovered env m index False = Inr m'"
  shows "items m' = items m \<and> last_hovered m' = min index (int (length (items m)) - 1)"
proof -
  define m1 where "m1 = m\<lparr>last_hovered := min index (int (length (items m)) - 1)\<rparr>"
  define m2 where "m2 = m1\<lparr>ui_menu := (ui_menu m1)\<lparr>m_hover_idx := last_hovered m1\<rparr>\<rparr>"
  have eq: "set_hovered env m index False =
      (if item_info (ui_menu m1) = [] then Inr m1
       else if last_hovered m2 \<ge> 0
            then bindE (snap_in_page env m2 (last_hovered m2)) (\<lambda>(r, m'). Inr m')
            else Inr m2)"
    using assms(1) by (simp add: set_hovered_def Let_def m1_def m2_def)
  have props: "items m1 = items m" "last_hovered m1 = min index (int (length (items m)) - 1)"
    "items m2 = items m" "last_hovered m2 = min index (int (length (items m)) - 1)"
    by (simp_all add: m1_def m2_def)
  show ?thesis
  proof (cases "item_info (ui_menu m1) = []")
    case True
    then show ?thesis using eq assms(2) props by simp
  next
    case False
    show ?thesis
    proof (cases "last_hovered m2 \<ge> 0")
      case True
      then obtain r where "snap_in_page env m2 (last_hovered m2) = Inr (r, m')"
        using eq assms(2) False by (auto simp: bindE_def split: sum.splits prod.splits)
      from snap_in_page_frame[OF this] show ?thesis using props by simp
    next
      case neg: False
      then have "m' = m2" using eq assms(2) False by simp
      then show ?thesis using props by simp
    qed
  qed
qed

text \<open>
  C6. When \<^verbatim>\<open>cycle_hover\<close> returns, the entries are unchanged and the hover index is either
  unchanged or on an entry of level Item; and with wraparound disabled and no entry of
  level Item in the scan direction (below the hover index when scanning in reverse, above
  it otherwise), the hover index is unchanged.
\<close>

theorem cycle_hover_lands_on_item:
  assumes run: "cycle_hover env m reverse = Inr m'"
  shows "items m' = items m
     \<and> (last_hovered m' = last_hovered m
        \<or> (0 \<le> last_hovered m' \<and> last_hovered m' < int (length (items m'))
            \<and> level (items m' ! nat (last_hovered m')) = MEL_ITEM))
     \<and> (\<not> is_set m MF_WRAP
          \<and> (\<forall>i < length (items m).
                (if reverse then int i < last_hovered m else last_hovered m < int i)
                  \<longrightarrow> level (items m ! i) \<noteq> MEL_ITEM)
        \<longrightarrow> last_hovered m' = last_hovered m)"
proof (cases "is_set m MF_ARROWS_SELECT")
  case False
  then have "m' = m" using run by (simp add: cycle_hover_def)
  then show ?thesis by simp
next
  case True
  define mx where "mx = (if is_set m MF_WRAP then int (length (items m))
                          else if reverse then last_hovered m
                          else int (length (items m)) - max (last_hovered m) 0)"
  define nh where "nh = (if reverse \<and> last_hovered m < 0 then 0 else last_hovered m)"
  have eq: "cycle_hover env m reverse =
      bindE (hover_scan m reverse mx 0 nh) (\<lambda>found.
        case found of None \<Rightarrow> Inr m | Some h \<Rightarrow> set_hovered env m h False)"
    using True by (simp add: cycle_hover_def Let_def mx_def nh_def)
  obtain found where scan: "hover_scan m reverse mx 0 nh = Inr found"
    using run eq by (cases "hover_scan m reverse mx 0 nh") (simp_all add: bindE_def)
  show ?thesis
  proof (cases found)
    case None
    then have "m' = m" using run eq scan by (simp add: bindE_def)
    then show ?thesis by simp
  next
    case (Some h)
    then have sh: "set_hovered env m h False = Inr m'" using run eq scan by (simp add: bindE_def)
    have hs: "hover_scan m reverse mx 0 nh = Inr (Some h)" using scan Some by simp
    note S = hover_scan_Some[OF hs]
    have fr: "items m' = items m" "last_hovered m' = h"
      using set_hovered_arrows[OF True sh] S by simp_all
    have part2: "last_hovered m' = last_hovered m"
      if nw: "\<not> is_set m MF_WRAP"
        and none: "\<forall>i < length (items m).
                (if reverse then int i < last_hovered m else last_hovered m < int i)
                  \<longrightarrow> level (items m ! i) \<noteq> MEL_ITEM"
    proof -
      have lvl: "\<not> (if reverse then h < last_hovered m else last_hovered m < h)"
      proof
        assume a: "if reverse then h < last_hovered m else last_hovered m < h"
        have "nat h < length (items m)" using S by linarith
        moreover have "(if reverse then int (nat h) < last_hovered m else last_hovered m < int (nat h))"
          using a S by simp
        ultimately have "level (items m ! nat h) \<noteq> MEL_ITEM" using none by blast
        then show False using S by simp
      qed
      show ?thesis
      proof (cases reverse)
        case True
        have "0 < mx" using S by simp
        then have pos: "0 < last_hovered m" using nw True by (simp add: mx_def)
        then have "nh = last_hovered m" by (simp add: nh_def)
        then have "h < last_hovered m \<or> (h = 0 \<and> last_hovered m \<le> 0)"
          using hover_scan_reverse[OF nw, of mx 0 nh h] hs True by simp
        then show ?thesis using lvl True pos by simp
      next
        case False
        have "0 < mx" using S by simp
        then have b: "max (last_hovered m) 0 < int (length (items m))" using nw False by (simp add: mx_def)
        have "nh = last_hovered m" using False by (simp add: nh_def)
        then have "last_hovered m < h \<or> (h = int (length (items m)) - 1 \<and> h \<le> last_hovered m)"
          using hover_scan_forward[OF nw, of mx 0 nh h] hs False by simp
        then show ?thesis using lvl False b fr by auto
      qed
    qed
    show ?thesis using fr S part2 by auto
  qed
qed

theorem cycle_hover_lands_on_item_witness:
  "holds_after (shown env0 (menu_of env0 {MF_MULTISELECT, MF_ARROWS_SELECT} fruits 600))
     (\<lambda>m0. holds_after (cycle_hover env0 m0 False) (\<lambda>m1.
        last_hovered m0 = -1 \<and> last_hovered m1 = 1 \<and> level (items m1 ! 1) = MEL_ITEM
        \<and> holds_after (cycle_hover env0 m1 True) (\<lambda>m2. last_hovered m2 = last_hovered m1)))"
proof -
  have "holds_after (shown env0 (menu_of env0 {MF_MULTISELECT, MF_ARROWS_SELECT} fruits 600))
     (\<lambda>m0. holds_after (cycle_hover env0 m0 False) (\<lambda>m1.
        last_hovered m0 = -1 \<and> last_hovered m1 = 1 \<and> level (items m1 ! 1) = MEL_ITEM
        \<and> \<not> is_set m1 MF_WRAP
        \<and> list_all (\<lambda>i. int i < last_hovered m1 \<longrightarrow> level (items m1 ! i) \<noteq> MEL_ITEM)
             [0..<length (items m1)]
        \<and> holds_after (cycle_hover env0 m1 True) (\<lambda>m2. True)))"
    by code_simp
  from holds_afterD [OF this]
  obtain m0 where run: "shown env0 (menu_of env0 {MF_MULTISELECT, MF_ARROWS_SELECT} fruits 600) = Inr m0"
    and h1: "holds_after (cycle_hover env0 m0 False) (\<lambda>m1.
        last_hovered m0 = -1 \<and> last_hovered m1 = 1 \<and> level (items m1 ! 1) = MEL_ITEM
        \<and> \<not> is_set m1 MF_WRAP
        \<and> list_all (\<lambda>i. int i < last_hovered m1 \<longrightarrow> level (items m1 ! i) \<noteq> MEL_ITEM)
             [0..<length (items m1)]
        \<and> holds_after (cycle_hover env0 m1 True) (\<lambda>m2. True))"
    by blast
  from holds_afterD [OF h1]
  obtain m1 where c1: "cycle_hover env0 m0 False = Inr m1"
    and a: "last_hovered m0 = -1" "last_hovered m1 = 1" "level (items m1 ! 1) = MEL_ITEM"
    and nw: "\<not> is_set m1 MF_WRAP"
    and la: "list_all (\<lambda>i. int i < last_hovered m1 \<longrightarrow> level (items m1 ! i) \<noteq> MEL_ITEM)
             [0..<length (items m1)]"
    and h2: "holds_after (cycle_hover env0 m1 True) (\<lambda>m2. True)"
    by blast
  from holds_afterD [OF h2] obtain m2 where c2: "cycle_hover env0 m1 True = Inr m2"
    by blast
  have none: "\<forall>i < length (items m1).
      (if True then int i < last_hovered m1 else last_hovered m1 < int i)
        \<longrightarrow> level (items m1 ! i) \<noteq> MEL_ITEM"
    using la by (simp add: list_all_iff)
  have "last_hovered m2 = last_hovered m1"
    using cycle_hover_lands_on_item [OF c2] nw none by blast
  then have h: "holds_after (cycle_hover env0 m1 True) (\<lambda>m2. last_hovered m2 = last_hovered m1)"
    using c2 by (simp add: holds_after_def)
  show ?thesis
    by (rule holds_afterI [OF run], rule holds_afterI [OF c1], intro conjI a h)
qed


section \<open>Keys and the quantity prefix\<close>








































section \<open>Hotkey resolution\<close>

lemma find_first_none: "\<forall>i \<in> set is. f i = Inr None \<Longrightarrow> find_first f is = Inr None"
  by (induction "is") simp_all

lemma find_first_first:
  "j < length is \<Longrightarrow> f (is ! j) = Inr (Some r) \<Longrightarrow> \<forall>i<j. f (is ! i) = Inr None
     \<Longrightarrow> find_first f is = Inr (Some r)"
proof (induction "is" arbitrary: j)
  case Nil
  then show ?case by simp
next
  case (Cons a "is")
  show ?case
  proof (cases j)
    case 0
    then show ?thesis using Cons.prems by simp
  next
    case (Suc j')
    have a: "f a = Inr None" using Cons.prems(3) Suc by auto
    have "find_first f is = Inr (Some r)"
    proof (rule Cons.IH [of j'])
      show "j' < length is" using Cons.prems(1) Suc by simp
      show "f (is ! j') = Inr (Some r)" using Cons.prems(2) Suc by simp
      show "\<forall>i<j'. f (is ! i) = Inr None"
      proof (intro allI impI)
        fix i assume "i < j'"
        then have "Suc i < j" using Suc by simp
        from Cons.prems(3) [rule_format, OF this] show "f (is ! i) = Inr None" by simp
      qed
    qed
    then show ?thesis using a by simp
  qed
qed

lemma find_first_SomeD: "find_first f is = Inr (Some r) \<Longrightarrow> \<exists>i \<in> set is. f i = Inr (Some r)"
proof (induction "is")
  case Nil
  then show ?case by simp
next
  case (Cons a "is")
  then show ?case by (cases "f a") (auto split: option.splits)
qed

lemma get_first_visible_range:
  assumes "get_first_visible m b = Inr fe"
  shows "0 \<le> fe \<and> fe \<le> int (length (items m))"
proof -
  from assms obtain found where
    ff: "find_first (first_visible_at m b) [0..<length (items m)] = Inr found"
    and r: "(case found of Some i \<Rightarrow> Inr i | None \<Rightarrow> Inr (int (length (items m))))
              = (Inr fe :: error + int)"
    by (auto simp: get_first_visible_def dest!: bindE_Inr)
  show ?thesis
  proof (cases found)
    case None
    then show ?thesis using r by simp
  next
    case (Some i)
    then have fe: "fe = i" using r by simp
    from find_first_SomeD [OF ff [unfolded Some]]
    obtain k where k: "k < length (items m)" and "first_visible_at m b k = Inr (Some i)"
      by auto
    then have "i = int k"
      by (auto simp: first_visible_at_def dest!: bindE_Inr split: if_splits)
    then show ?thesis using fe k by simp
  qed
qed

lemma is_hotkey_TrueD:
  "is_hotkey m i key = Inr True \<Longrightarrow>
     0 \<le> i \<and> i < int (length (items m)) \<and> key \<in> set (hotkeys (items m ! nat i))"
  by (auto simp: is_hotkey_def Let_def at_def entry_is_hotkey_def key_is_minus_def
      dest!: bindE_Inr split: if_splits)

lemma is_hotkey_iff:
  assumes "i < length (items m)"
  shows "hotkey_here m key i \<longleftrightarrow>
     entry_is_hotkey (items m ! i) key
       \<and> (is_set m MF_SELECT_BY_PAGE \<longrightarrow> in_page m (int i) False = Inr True)"
  using assms
  by (auto simp: hotkey_here_def is_hotkey_def Let_def at_def key_is_minus_def bindE_def)

lemma scan_index_range:
  assumes "0 \<le> fe" "0 < length (items m)"
  shows "scan_index m fe j < length (items m)"
    and "c_mod (int j + fe) (int (length (items m))) = int (scan_index m fe j)"
proof -
  have e: "c_mod (int j + fe) (int (length (items m))) = (int j + fe) mod int (length (items m))"
    using assms by (intro c_mod_nonneg) simp_all
  have "0 \<le> (int j + fe) mod int (length (items m))"
    "(int j + fe) mod int (length (items m)) < int (length (items m))"
    using assms by simp_all
  then show "scan_index m fe j < length (items m)"
    and "c_mod (int j + fe) (int (length (items m))) = int (scan_index m fe j)"
    using e by (simp_all add: scan_index_def)
qed

lemma primary_at_value:
  assumes fe: "0 \<le> fe" and j: "j < length (items m)"
    and tot: "\<forall>i<length (items m). \<exists>b. is_hotkey m (int i) key = Inr b"
  shows "primary_at m key fe j =
     Inr (if primary_here m key (scan_index m fe j) then Some (int (scan_index m fe j)) else None)"
proof -
  have n: "0 < length (items m)" using j by (cases "items m") simp_all
  let ?idx = "scan_index m fe j"
  have r: "?idx < length (items m)" and c: "c_mod (int j + fe) (int (length (items m))) = int ?idx"
    using scan_index_range [OF fe n] by simp_all
  from tot r obtain b where b: "is_hotkey m (int ?idx) key = Inr b" by blast
  show ?thesis
  proof (cases b)
    case False
    then show ?thesis using b c
      by (simp add: primary_at_def Let_def bindE_def primary_here_def hotkey_here_def)
  next
    case True
    with b have t: "is_hotkey m (int ?idx) key = Inr True" by simp
    from is_hotkey_TrueD [OF t] have ne: "hotkeys (items m ! ?idx) \<noteq> []" by auto
    then have h: "at (hotkeys (items m ! ?idx)) 0 = Inr (hd (hotkeys (items m ! ?idx)))"
      by (simp add: at_def hd_conv_nth)
    show ?thesis using t c r h
      by (simp add: primary_at_def Let_def bindE_def primary_here_def hotkey_here_def at_def)
  qed
qed

lemma for_each_snoc:
  "for_each f s (xs @ [x]) = Inr s'' \<Longrightarrow> \<exists>s'. for_each f s xs = Inr s' \<and> f s' x = Inr s''"
proof (induction xs arbitrary: s)
  case Nil
  then show ?case by (cases "f s x") simp_all
next
  case (Cons a xs)
  then show ?case by (cases "f s a") simp_all
qed

lemma is_hotkey_view:
  assumes "hotkey_view m' = hotkey_view m"
  shows "is_hotkey m' i key = is_hotkey m i key"
proof -
  from assms have hk: "map hotkeys (items m') = map hotkeys (items m)"
    and ir: "map info_row (item_info (ui_menu m')) = map info_row (item_info (ui_menu m))"
    and rh: "row_heights (ui_menu m') = row_heights (ui_menu m)"
    and sc: "scroller m' = scroller m" and fl: "flags m' = flags m"
    by (simp_all add: hotkey_view_def)
  have len: "length (items m') = length (items m)" using hk by (rule map_eq_imp_length_eq)
  have len2: "length (item_info (ui_menu m')) = length (item_info (ui_menu m))"
    using ir by (rule map_eq_imp_length_eq)
  have gir: "get_item_region m' i = get_item_region m i"
  proof (cases "0 \<le> i \<and> i < int (length (item_info (ui_menu m)))")
    case True
    then have "info_row (item_info (ui_menu m') ! nat i) = info_row (item_info (ui_menu m) ! nat i)"
      using ir len2 by (metis nat_less_iff nth_map)
    then show ?thesis using True len len2 rh
      by (simp add: get_item_region_def at_def bindE_def Let_def cong: if_cong)
  next
    case False
    then show ?thesis using len len2 by (auto simp: get_item_region_def at_def bindE_def)
  qed
  have ip: "in_page m' i False = in_page m i False"
    using gir sc by (simp add: in_page_def get_scroll_def)
  show ?thesis
  proof (cases "0 \<le> i \<and> i < int (length (items m))")
    case True
    then have "hotkeys (items m' ! nat i) = hotkeys (items m ! nat i)"
      using hk len by (metis nat_less_iff nth_map)
    then show ?thesis using True len ip fl
      by (simp add: is_hotkey_def Let_def at_def bindE_def entry_is_hotkey_def is_set_def)
  next
    case False
    then show ?thesis using len by (auto simp: is_hotkey_def Let_def at_def bindE_def)
  qed
qed

lemma select_hotkeys: "hotkeys (select e q) = hotkeys e" "level (select e q) = level e"
  by (simp_all add: select_def)

lemma select_item_index_view:
  assumes run: "select_item_index env m i q = Inr m'"
    and sync: "length (item_info (ui_menu m)) = length (items m)"
  shows "hotkey_view m' = hotkey_view m
     \<and> length (item_info (ui_menu m')) = length (items m')
     \<and> 0 \<le> i \<and> i < int (length (items m))
     \<and> items m' = (items m)[nat i := select (items m ! nat i) q]"
proof -
  from run have r: "0 \<le> i" "i < int (length (items m))"
    by (auto simp: select_item_index_def at_def dest!: bindE_Inr split: if_splits)
  define e where "e = select (items m ! nat i) q"
  define infos where "infos = item_info (ui_menu m)"
  have rs: "resize (length (items m)) infos = infos"
    using sync by (simp add: resize_def infos_def)
  from run r have m': "m' = m\<lparr>items := (items m)[nat i := e],
       ui_menu := (ui_menu m)\<lparr>item_info :=
         infos[nat i := (infos ! nat i)\<lparr>info_text := get_text env e,
            info_heading := (level e = MEL_TITLE \<or> level e = MEL_SUBTITLE),
            info_tiles := get_tiles env e\<rparr>]\<rparr>\<rparr>"
    using rs
    by (simp add: select_item_index_def update_item_def at_def bindE_def Let_def e_def [symmetric]
        infos_def [symmetric])
  have h1: "map hotkeys ((items m)[nat i := e]) = map hotkeys (items m)"
    by (rule nth_equalityI) (use r in \<open>auto simp: e_def nth_list_update select_hotkeys\<close>)
  have h2: "map info_row (infos[nat i := (infos ! nat i)\<lparr>info_text := get_text env e,
            info_heading := (level e = MEL_TITLE \<or> level e = MEL_SUBTITLE),
            info_tiles := get_tiles env e\<rparr>]) = map info_row infos"
    (is "map info_row (infos[nat i := ?x]) = _")
  proof (rule nth_equalityI)
    show "length (map info_row (infos[nat i := ?x])) = length (map info_row infos)" by simp
    fix k assume "k < length (map info_row (infos[nat i := ?x]))"
    then have k: "k < length infos" by simp
    show "map info_row (infos[nat i := ?x]) ! k = map info_row infos ! k"
      using k by (cases "k = nat i") simp_all
  qed
  show ?thesis using m' h1 h2 r sync
    by (simp add: hotkey_view_def e_def [symmetric] infos_def [symmetric])
qed

lemma select_index_view:
  assumes run: "select_index env m (int i) q = Inr m'"
    and sync: "length (item_info (ui_menu m)) = length (items m)"
    and multi: "MF_MULTISELECT \<in> flags m"
    and i: "i < length (items m)"
    and ns: "level (items m ! i) \<noteq> MEL_SUBTITLE"
  shows "hotkey_view m' = hotkey_view m
     \<and> length (item_info (ui_menu m')) = length (items m')
     \<and> items m' = (if level (items m ! i) = MEL_ITEM
                    then (items m)[i := select (items m ! i) q] else items m)
     \<and> (level (items m ! i) \<noteq> MEL_ITEM \<longrightarrow> m' = m)"
proof (cases "level (items m ! i) = MEL_ITEM")
  case True
  then have "select_item_index env m (int i) q = Inr m'"
    using run i multi by (auto simp: select_index_def Let_def at_def dest!: bindE_Inr)
  from select_item_index_view [OF this sync] show ?thesis using True by simp
next
  case False
  then have "m' = m"
    using run i ns by (auto simp: select_index_def Let_def at_def dest!: bindE_Inr)
  then show ?thesis using False sync by simp
qed


lemma hotkey_view_D:
  assumes "hotkey_view m' = hotkey_view m"
  shows "length (items m') = length (items m)" "flags m' = flags m" "scroller m' = scroller m"
    "hotkey_here m' key i = hotkey_here m key i"
proof -
  from assms have hk: "map hotkeys (items m') = map hotkeys (items m)"
    by (simp add: hotkey_view_def)
  show "length (items m') = length (items m)" using hk by (rule map_eq_imp_length_eq)
  show "flags m' = flags m" "scroller m' = scroller m" using assms by (simp_all add: hotkey_view_def)
  show "hotkey_here m' key i = hotkey_here m key i"
    using is_hotkey_view [OF assms] by (simp add: hotkey_here_def)
qed

lemma hotkey_selected_0: "hotkey_selected m key qty 0 = items m"
  by (simp add: hotkey_selected_def map_nth)

lemma hotkey_selected_nth:
  "i < length (items m) \<Longrightarrow> hotkey_selected m key qty k ! i =
     (if i < k \<and> hotkey_here m key i \<and> level (items m ! i) = MEL_ITEM
      then select (items m ! i) qty else items m ! i)"
  by (simp add: hotkey_selected_def)

lemma hotkey_selected_length: "length (hotkey_selected m key qty k) = length (items m)"
  by (simp add: hotkey_selected_def)

lemma secondary_loop:
  assumes sync: "length (item_info (ui_menu m)) = length (items m)"
    and multi: "MF_MULTISELECT \<in> flags m"
    and nosub: "\<forall>i<length (items m). hotkey_here m key i \<longrightarrow> level (items m ! i) \<noteq> MEL_SUBTITLE"
    and tot: "\<forall>i<length (items m). \<exists>b. is_hotkey m (int i) key = Inr b"
  shows "k \<le> length (items m) \<Longrightarrow>
     for_each (secondary_step env key qty) (-1, -1, m) [0..<k] = Inr (a, b, mk) \<Longrightarrow>
     hotkey_view mk = hotkey_view m \<and> length (item_info (ui_menu mk)) = length (items mk)
     \<and> items mk = hotkey_selected m key qty k
     \<and> (filter (hotkey_here m key) [0..<k] = [] \<longrightarrow> a = -1 \<and> b = -1 \<and> mk = m)
     \<and> (filter (hotkey_here m key) [0..<k] \<noteq> [] \<longrightarrow>
          a = int (hd (filter (hotkey_here m key) [0..<k]))
          \<and> b = int (last (filter (hotkey_here m key) [0..<k])))"
proof (induction k arbitrary: a b mk)
  case 0
  then show ?case using sync by (simp add: hotkey_selected_0)
next
  case (Suc k)
  let ?M = "filter (hotkey_here m key) [0..<k]"
  have k: "k < length (items m)" using Suc.prems(1) by simp
  have "for_each (secondary_step env key qty) (-1, -1, m) ([0..<k] @ [k]) = Inr (a, b, mk)"
    using Suc.prems(2) by simp
  from for_each_snoc [OF this]
  obtain s0 where pre: "for_each (secondary_step env key qty) (-1, -1, m) [0..<k] = Inr s0"
    and step: "secondary_step env key qty s0 k = Inr (a, b, mk)" by blast
  obtain a0 b0 m0 where s0: "s0 = (a0, b0, m0)" by (cases s0)
  from Suc.IH [of a0 b0 m0] k pre s0
  have v0: "hotkey_view m0 = hotkey_view m"
    and sy0: "length (item_info (ui_menu m0)) = length (items m0)"
    and it0: "items m0 = hotkey_selected m key qty k"
    and e0: "?M = [] \<longrightarrow> a0 = -1 \<and> b0 = -1 \<and> m0 = m"
    and ne0: "?M \<noteq> [] \<longrightarrow> a0 = int (hd ?M) \<and> b0 = int (last ?M)"
    by simp_all
  have len0: "length (items m0) = length (items m)" and fl0: "flags m0 = flags m"
    using hotkey_view_D [OF v0] by simp_all
  have hk0: "is_hotkey m0 (int k) key = is_hotkey m (int k) key" using is_hotkey_view [OF v0] .
  have itk: "items m0 ! k = items m ! k" using it0 k by (simp add: hotkey_selected_nth)
  have fS: "filter (hotkey_here m key) [0..<Suc k] = ?M @ (if hotkey_here m key k then [k] else [])"
    by simp
  show ?case
  proof (cases "hotkey_here m key k")
    case False
    with tot k have "is_hotkey m (int k) key = Inr False" by (auto simp: hotkey_here_def)
    then have same: "a = a0 \<and> b = b0 \<and> mk = m0"
      using step s0 hk0 by (simp add: secondary_step_def bindE_def)
    have "hotkey_selected m key qty (Suc k) = hotkey_selected m key qty k"
      using False by (auto simp: hotkey_selected_def less_Suc_eq)
    then show ?thesis using same v0 sy0 it0 e0 ne0 False fS by simp
  next
    case True
    then have t: "is_hotkey m0 (int k) key = Inr True" using hk0 by (simp add: hotkey_here_def)
    then obtain m1 where si: "select_index env m0 (int k) qty = Inr m1"
      and res: "a = (if a0 < 0 then int k else a0)" "b = int k" "mk = m1"
      using step s0 by (auto simp: secondary_step_def dest!: bindE_Inr)
    have ns: "level (items m0 ! k) \<noteq> MEL_SUBTITLE" using nosub k True itk by simp
    from select_index_view [OF si sy0 _ _ ns] multi fl0 k len0
    have v1: "hotkey_view m1 = hotkey_view m0"
      and sy1: "length (item_info (ui_menu m1)) = length (items m1)"
      and it1: "items m1 = (if level (items m0 ! k) = MEL_ITEM
                    then (items m0)[k := select (items m0 ! k) qty] else items m0)"
      by simp_all
    have itS: "items m1 = hotkey_selected m key qty (Suc k)"
    proof (rule nth_equalityI)
      show "length (items m1) = length (hotkey_selected m key qty (Suc k))"
        using it1 len0 by (simp add: hotkey_selected_length)
      fix i assume "i < length (items m1)"
      then have i: "i < length (items m)" using it1 len0 by (simp split: if_splits)
      show "items m1 ! i = hotkey_selected m key qty (Suc k) ! i"
      proof (cases "i = k")
        case True
        then show ?thesis using it1 itk k \<open>hotkey_here m key k\<close> len0
          by (simp add: hotkey_selected_nth)
      next
        case False
        then have "items m1 ! i = items m0 ! i" using it1 by simp
        then show ?thesis using it0 i False by (auto simp: hotkey_selected_nth less_Suc_eq)
      qed
    qed
    have a: "a = int (hd (?M @ [k]))"
    proof (cases "?M = []")
      case True
      then show ?thesis using e0 res by simp
    next
      case False
      then show ?thesis using ne0 res by simp
    qed
    show ?thesis using v0 v1 sy1 itS a res True fS by simp
  qed
qed


lemma set_hovered_items: "set_hovered env m i f = Inr m' \<Longrightarrow> items m' = items m"
  by (auto simp: set_hovered_def Let_def dest!: bindE_Inr snap_in_page_frame
      split: if_splits prod.splits)

text \<open>
  C4 (as amended).  Let \<open>key\<close> be a key that \<^verbatim>\<open>select_items\<close> treats as a hotkey (not \<^verbatim>\<open>','\<close>,
  \<^verbatim>\<open>'*'\<close> or \<^verbatim>\<open>'-'\<close> under \<^verbatim>\<open>MF_MULTISELECT\<close>), \<open>fe\<close> the first visible index, and let every
  \<^verbatim>\<open>is_hotkey(i, key)\<close> return. Then:

  \<^item> \<^verbatim>\<open>is_hotkey(i, key)\<close> holds iff \<open>key\<close> is one of the hotkeys of entry \<open>i\<close> and, under
    \<^verbatim>\<open>MF_SELECT_BY_PAGE\<close>, entry \<open>i\<close> is in the page;

  \<^item> the first pass looks at the indices \<open>(j + fe) mod n\<close> for \<open>j = 0, 1, \<dots>\<close>; at the first of
    them where \<^verbatim>\<open>is_hotkey\<close> holds and \<open>key\<close> is the primary hotkey or the menu is
    \<^verbatim>\<open>MF_SINGLESELECT\<close>, it calls \<^verbatim>\<open>select_index\<close> and \<^verbatim>\<open>set_hovered\<close> on that index and
    returns;

  \<^item> if there is no such index and the menu is not \<^verbatim>\<open>MF_MULTISELECT\<close>, nothing changes;

  \<^item> if there is no such index and the menu is \<^verbatim>\<open>MF_MULTISELECT\<close> (with one layout record per
    entry, and no Subtitle-level entry accepted by \<^verbatim>\<open>is_hotkey\<close>), then when
    \<^verbatim>\<open>select_items\<close> returns, \<^verbatim>\<open>select(qty)\<close> has been applied to exactly the Item-level
    entries that \<^verbatim>\<open>is_hotkey\<close> accepts; and if there is any accepted entry, the result is that
    of \<^verbatim>\<open>snap_in_page\<close> on the last accepted index followed by \<^verbatim>\<open>set_hovered\<close> on the first,
    otherwise the menu is unchanged.
\<close>

theorem select_items_hotkey:
  assumes lit: "\<not> ((key = 44 \<or> key = 42 \<or> key_is_minus key) \<and> MF_MULTISELECT \<in> flags m)"
    and fv: "get_first_visible m False = Inr fe"
    and tot: "\<forall>i<length (items m). \<exists>b. is_hotkey m (int i) key = Inr b"
  shows "(\<forall>i<length (items m). hotkey_here m key i \<longleftrightarrow>
            entry_is_hotkey (items m ! i) key
            \<and> (is_set m MF_SELECT_BY_PAGE \<longrightarrow> in_page m (int i) False = Inr True))
     \<and> (\<forall>j<length (items m).
           primary_here m key (scan_index m fe j)
           \<and> (\<forall>i<j. \<not> primary_here m key (scan_index m fe i)) \<longrightarrow>
           select_items env m key qty =
             bindE (select_index env m (int (scan_index m fe j)) qty)
               (\<lambda>m1. set_hovered env m1 (int (scan_index m fe j)) False))
     \<and> ((\<forall>i<length (items m). \<not> primary_here m key i) \<and> \<not> is_set m MF_MULTISELECT \<longrightarrow>
           select_items env m key qty = Inr m)
     \<and> ((\<forall>i<length (items m). \<not> primary_here m key i) \<and> is_set m MF_MULTISELECT
          \<and> length (item_info (ui_menu m)) = length (items m)
          \<and> (\<forall>i<length (items m). hotkey_here m key i \<longrightarrow> level (items m ! i) \<noteq> MEL_SUBTITLE) \<longrightarrow>
           (\<forall>m'. select_items env m key qty = Inr m' \<longrightarrow>
              items m' = hotkey_selected m key qty (length (items m))
              \<and> (if filter (hotkey_here m key) [0..<length (items m)] = [] then m' = m
                 else \<exists>m1 r m2. items m1 = items m' \<and> scroller m1 = scroller m
                        \<and> snap_in_page env m1
                            (int (last (filter (hotkey_here m key) [0..<length (items m)])))
                          = Inr (r, m2)
                        \<and> set_hovered env m2
                            (int (hd (filter (hotkey_here m key) [0..<length (items m)]))) False
                          = Inr m')))"
proof -
  let ?n = "length (items m)"
  have fe: "0 \<le> fe" using get_first_visible_range [OF fv] by simp
  have unfold: "select_items env m key qty =
      bindE (find_first (primary_at m key fe) [0..<?n]) (\<lambda>found.
          case found of
            Some index \<Rightarrow>
              bindE (select_index env m index qty) (\<lambda>m1. set_hovered env m1 index False)
          | None \<Rightarrow>
              if is_set m MF_MULTISELECT then
                bindE (for_each (secondary_step env key qty) (-1, -1, m) [0..<?n])
                  (\<lambda>(first_snap, last_snap, m1).
                    if first_snap \<ge> 0 then
                      bindE (snap_in_page env m1 last_snap) (\<lambda>(r, m2).
                        set_hovered env m2 first_snap False)
                    else Inr m1)
              else Inr m)"
    using lit fv by (auto simp: select_items_def bindE_def)
  have pv: "\<And>j. j < ?n \<Longrightarrow> primary_at m key fe j =
     Inr (if primary_here m key (scan_index m fe j) then Some (int (scan_index m fe j)) else None)"
    using primary_at_value [OF fe _ tot] by blast
  have none: "find_first (primary_at m key fe) [0..<?n] = Inr None"
    if np: "\<forall>i<?n. \<not> primary_here m key i"
  proof (rule find_first_none, intro ballI)
    fix j assume "j \<in> set [0..<?n]"
    then have j: "j < ?n" by simp
    then have "0 < ?n" by (cases "items m") simp_all
    from scan_index_range(1) [OF fe this] have "scan_index m fe j < ?n" .
    with np have "\<not> primary_here m key (scan_index m fe j)" by blast
    then show "primary_at m key fe j = Inr None" using pv [OF j] by simp
  qed
  have p1: "\<forall>i<?n. hotkey_here m key i \<longleftrightarrow>
            entry_is_hotkey (items m ! i) key
            \<and> (is_set m MF_SELECT_BY_PAGE \<longrightarrow> in_page m (int i) False = Inr True)"
    using is_hotkey_iff by blast
  have p2: "select_items env m key qty =
             bindE (select_index env m (int (scan_index m fe j)) qty)
               (\<lambda>m1. set_hovered env m1 (int (scan_index m fe j)) False)"
    if j: "j < ?n" and hit: "primary_here m key (scan_index m fe j)"
      and miss: "\<forall>i<j. \<not> primary_here m key (scan_index m fe i)" for j
  proof -
    have "find_first (primary_at m key fe) [0..<?n] = Inr (Some (int (scan_index m fe j)))"
    proof (rule find_first_first [of j])
      show "j < length [0..<?n]" using j by simp
      show "primary_at m key fe ([0..<?n] ! j) = Inr (Some (int (scan_index m fe j)))"
        using j hit pv [OF j] by simp
      show "\<forall>i<j. primary_at m key fe ([0..<?n] ! i) = Inr None"
      proof (intro allI impI)
        fix i assume i: "i < j"
        then have i': "i < ?n" using j by simp
        show "primary_at m key fe ([0..<?n] ! i) = Inr None"
          using pv [OF i'] miss i i' by simp
      qed
    qed
    then show ?thesis using unfold by (simp add: bindE_def)
  qed
  have p3: "select_items env m key qty = Inr m"
    if "\<forall>i<?n. \<not> primary_here m key i" "\<not> is_set m MF_MULTISELECT"
    using unfold none [OF that(1)] that(2) by (simp add: bindE_def)
  have p4: "items m' = hotkey_selected m key qty ?n
              \<and> (if filter (hotkey_here m key) [0..<?n] = [] then m' = m
                 else \<exists>m1 r m2. items m1 = items m' \<and> scroller m1 = scroller m
                        \<and> snap_in_page env m1 (int (last (filter (hotkey_here m key) [0..<?n])))
                          = Inr (r, m2)
                        \<and> set_hovered env m2 (int (hd (filter (hotkey_here m key) [0..<?n]))) False
                          = Inr m')"
    if np: "\<forall>i<?n. \<not> primary_here m key i" and multi: "is_set m MF_MULTISELECT"
      and sync: "length (item_info (ui_menu m)) = ?n"
      and nosub: "\<forall>i<?n. hotkey_here m key i \<longrightarrow> level (items m ! i) \<noteq> MEL_SUBTITLE"
      and run: "select_items env m key qty = Inr m'" for m'
  proof -
    let ?M = "filter (hotkey_here m key) [0..<?n]"
    from run unfold none [OF np] multi
    obtain s where loop: "for_each (secondary_step env key qty) (-1, -1, m) [0..<?n] = Inr s"
      and fin: "(case s of (first_snap, last_snap, m1) \<Rightarrow>
                    if first_snap \<ge> 0 then
                      bindE (snap_in_page env m1 last_snap) (\<lambda>(r, m2).
                        set_hovered env m2 first_snap False)
                    else Inr m1) = Inr m'"
      by (auto simp: bindE_def split: sum.splits)
    obtain a b m1 where s: "s = (a, b, m1)" by (cases s)
    have multi': "MF_MULTISELECT \<in> flags m" using multi by (simp add: is_set_def)
    from secondary_loop [OF sync multi' nosub tot order_refl, of env qty a b m1] loop s
    have v: "hotkey_view m1 = hotkey_view m" and it: "items m1 = hotkey_selected m key qty ?n"
      and e: "?M = [] \<longrightarrow> a = -1 \<and> b = -1 \<and> m1 = m"
      and ne: "?M \<noteq> [] \<longrightarrow> a = int (hd ?M) \<and> b = int (last ?M)"
      by simp_all
    show ?thesis
    proof (cases "?M = []")
      case True
      then have "m' = m" using fin s e by simp
      then show ?thesis using True it e by simp
    next
      case False
      then have ab: "a = int (hd ?M)" "b = int (last ?M)" using ne by simp_all
      then have "bindE (snap_in_page env m1 b) (\<lambda>(r, m2). set_hovered env m2 a False) = Inr m'"
        using fin s by simp
      then obtain r m2 where sn: "snap_in_page env m1 b = Inr (r, m2)"
        and sh: "set_hovered env m2 a False = Inr m'"
        by (auto dest!: bindE_Inr)
      have "items m' = items m1"
        using snap_in_page_frame [OF sn] set_hovered_items [OF sh] by simp
      moreover have "scroller m1 = scroller m" using hotkey_view_D(3) [OF v] .
      ultimately show ?thesis using False it sn sh ab by auto
    qed
  qed
  show ?thesis
    using p1 p2 p3 p4 by blast
qed

theorem select_items_hotkey_witness:
  "holds_after berries_menu
     (\<lambda>m. get_first_visible m False = Inr 2 \<and> scan_index m 2 3 = 1
        \<and> select_items env0 m 97 (-1) =
            bindE (select_index env0 m 1 (-1)) (\<lambda>m1. set_hovered env0 m1 1 False)
        \<and> holds_after (select_items env0 m 97 (-1))
            (\<lambda>m'. map selected_qty (items m') = [0, 1, 0, 0])
        \<and> holds_after (select_items env0 m 98 (-1))
            (\<lambda>m'. items m' = hotkey_selected m 98 (-1) 4
                 \<and> map selected_qty (items m') = [0, 1, 1, 0] \<and> get_scroll m' = -6))"
proof -
  have "holds_after berries_menu
     (\<lambda>m. length (items m) = 4 \<and> get_first_visible m False = Inr 2
        \<and> list_all (\<lambda>i. is_hotkey m (int i) 97 = Inr True \<or> is_hotkey m (int i) 97 = Inr False)
            [0..<4]
        \<and> list_all (\<lambda>i. is_hotkey m (int i) 98 = Inr True \<or> is_hotkey m (int i) 98 = Inr False)
            [0..<4]
        \<and> scan_index m 2 3 = 1 \<and> primary_here m 97 (scan_index m 2 3)
        \<and> list_all (\<lambda>i. \<not> primary_here m 97 (scan_index m 2 i)) [0..<3]
        \<and> list_all (\<lambda>i. \<not> primary_here m 98 i) [0..<4]
        \<and> is_set m MF_MULTISELECT \<and> length (item_info (ui_menu m)) = 4
        \<and> list_all (\<lambda>i. \<not> (hotkey_here m 98 i \<and> level (items m ! i) = MEL_SUBTITLE)) [0..<4]
        \<and> holds_after (select_items env0 m 97 (-1))
            (\<lambda>m'. map selected_qty (items m') = [0, 1, 0, 0])
        \<and> holds_after (select_items env0 m 98 (-1))
            (\<lambda>m'. map selected_qty (items m') = [0, 1, 1, 0] \<and> get_scroll m' = -6))"
    by code_simp
  from holds_afterD [OF this]
  obtain m where run: "berries_menu = Inr m" and n: "length (items m) = 4"
    and fv: "get_first_visible m False = Inr 2"
    and t97: "list_all (\<lambda>i. is_hotkey m (int i) 97 = Inr True \<or> is_hotkey m (int i) 97 = Inr False)
            [0..<4]"
    and t98: "list_all (\<lambda>i. is_hotkey m (int i) 98 = Inr True \<or> is_hotkey m (int i) 98 = Inr False)
            [0..<4]"
    and sc: "scan_index m 2 3 = 1" and hit: "primary_here m 97 (scan_index m 2 3)"
    and miss: "list_all (\<lambda>i. \<not> primary_here m 97 (scan_index m 2 i)) [0..<3]"
    and np: "list_all (\<lambda>i. \<not> primary_here m 98 i) [0..<4]"
    and multi: "is_set m MF_MULTISELECT" and sync: "length (item_info (ui_menu m)) = 4"
    and nosub: "list_all (\<lambda>i. \<not> (hotkey_here m 98 i \<and> level (items m ! i) = MEL_SUBTITLE)) [0..<4]"
    and r97: "holds_after (select_items env0 m 97 (-1))
            (\<lambda>m'. map selected_qty (items m') = [0, 1, 0, 0])"
    and r98: "holds_after (select_items env0 m 98 (-1))
            (\<lambda>m'. map selected_qty (items m') = [0, 1, 1, 0] \<and> get_scroll m' = -6)"
    by blast
  have lit97: "\<not> (((97::int) = 44 \<or> (97::int) = 42 \<or> key_is_minus 97) \<and> MF_MULTISELECT \<in> flags m)"
    by (simp add: key_is_minus_def)
  have lit98: "\<not> (((98::int) = 44 \<or> (98::int) = 42 \<or> key_is_minus 98) \<and> MF_MULTISELECT \<in> flags m)"
    by (simp add: key_is_minus_def)
  have tot97: "\<forall>i<length (items m). \<exists>b. is_hotkey m (int i) 97 = Inr b"
    using t97 n by (auto simp: list_all_iff)
  have tot98: "\<forall>i<length (items m). \<exists>b. is_hotkey m (int i) 98 = Inr b"
    using t98 n by (auto simp: list_all_iff)
  have miss': "\<forall>i<3. \<not> primary_here m 97 (scan_index m 2 i)"
    using miss by (simp add: list_all_iff)
  have a: "select_items env0 m 97 (-1) =
            bindE (select_index env0 m 1 (-1)) (\<lambda>m1. set_hovered env0 m1 1 False)"
    using select_items_hotkey [OF lit97 fv tot97, of env0 "-1", THEN conjunct2, THEN conjunct1,
        rule_format, of 3] n hit miss' sc
    by simp
  have np': "\<forall>i<length (items m). \<not> primary_here m 98 i"
    using np n by (simp add: list_all_iff)
  have nosub': "\<forall>i<length (items m). hotkey_here m 98 i \<longrightarrow> level (items m ! i) \<noteq> MEL_SUBTITLE"
    using nosub n by (simp add: list_all_iff)
  from holds_afterD [OF r98] obtain m' where s98: "select_items env0 m 98 (-1) = Inr m'"
    and q98: "map selected_qty (items m') = [0, 1, 1, 0]" "get_scroll m' = -6"
    by auto
  have "items m' = hotkey_selected m 98 (-1) (length (items m))"
    using select_items_hotkey [OF lit98 fv tot98, of env0 "-1", THEN conjunct2, THEN conjunct2,
        THEN conjunct2, rule_format, of m'] np' multi sync n nosub' s98
    by simp
  then have b: "holds_after (select_items env0 m 98 (-1))
            (\<lambda>m'. items m' = hotkey_selected m 98 (-1) 4
                 \<and> map selected_qty (items m') = [0, 1, 1, 0] \<and> get_scroll m' = -6)"
    using s98 q98 n by (simp add: holds_after_def)
  show ?thesis
    by (rule holds_afterI [OF run], intro conjI fv sc a r97 b)
qed

text \<open>
  The claim as written fails under \<^verbatim>\<open>MF_SELECT_BY_PAGE\<close>: \<^verbatim>\<open>'s'\<close> (115) is the primary hotkey
  of the fourth entry, which lies below a viewport of height 30, so \<^verbatim>\<open>is_hotkey\<close> rejects it
  in both passes and nothing is selected.
\<close>

theorem select_by_page_skips_hotkey_counterexample:
  "holds_after (shown env0 (menu_of env0 {MF_MULTISELECT, MF_SELECT_BY_PAGE} berries 30))
     (\<lambda>m. get_first_visible m False = Inr 0
        \<and> entry_is_hotkey (items m ! 3) 115 \<and> hd (hotkeys (items m ! 3)) = 115
        \<and> holds_after (select_items env0 m 115 (-1))
            (\<lambda>m'. map selected_qty (items m') = [0, 0, 0, 0] \<and> get_scroll m' = 0))"
  by code_simp


end
